theory Spec2Isabelle
  imports Complex_Main "HOL-Library.Multiset" "HOL-Library.Sublist"
begin

section \<open>Fairway Content Library: the query engine of App.js\<close>

text \<open>
  A shallow embedding of the pure logic of \<^verbatim>\<open>src/App.js\<close>: the small utilities
  (\<^verbatim>\<open>clamp\<close>, \<^verbatim>\<open>includesI\<close>, \<^verbatim>\<open>fullTextMatch\<close>, \<^verbatim>\<open>computeYear\<close>, \<^verbatim>\<open>tally\<close>), the
  \<^verbatim>\<open>filtered\<close>, \<^verbatim>\<open>sorted\<close>, \<^verbatim>\<open>pageItems\<close> and \<^verbatim>\<open>facets\<close> computations of the
  \<^verbatim>\<open>App\<close> component, the \<^verbatim>\<open>toggle\<close> helper and the catalog loader.

  JavaScript strings are modelled as \<^typ>\<open>string\<close> restricted to ASCII, arrays as lists,
  an absent (\<^verbatim>\<open>undefined\<close>) field as \<^term>\<open>None\<close>, finite numbers as exact
  rationals or integers, and \<^verbatim>\<open>NaN\<close> as a value of its own.
\<close>

subsection \<open>Array built-ins\<close>

text \<open>\<^verbatim>\<open>arr.includes(v)\<close> on an array of strings.\<close>

definition arrIncludes :: "'a list \<Rightarrow> 'a \<Rightarrow> bool" where
  "arrIncludes arr v = (v \<in> set arr)"

text \<open>
  \<^verbatim>\<open>arr.slice(start, end)\<close> with integer arguments: a negative argument counts from
  the end, both are cut to \<open>[0, len]\<close>, and an empty range gives the empty array.
\<close>

definition relIndex :: "int \<Rightarrow> int \<Rightarrow> int" where
  "relIndex len i = (if i < 0 then max (len + i) 0 else min i len)"

definition jsSlice :: "'a list \<Rightarrow> int \<Rightarrow> int \<Rightarrow> 'a list" where
  "jsSlice arr start fin =
     (let len = int (length arr);
          k = relIndex len start;
          e = relIndex len fin
      in take (nat (max (e - k) 0)) (drop (nat k) arr))"

subsection \<open>String built-ins\<close>

text \<open>
  The white space of \<^verbatim>\<open>String.prototype.trim\<close> and of the regular expression class
  \<^verbatim>\<open>\s\<close>, within ASCII: tab, line feed, vertical tab, form feed, carriage return, space.
\<close>

definition isSpace :: "char \<Rightarrow> bool" where
  "isSpace c = (c \<in> set [CHR 0x09, CHR 0x0A, CHR 0x0B, CHR 0x0C, CHR 0x0D, CHR 0x20])"

text \<open>\<^verbatim>\<open>s.trim()\<close>\<close>

definition trim :: "string \<Rightarrow> string" where
  "trim s = rev (dropWhile isSpace (rev (dropWhile isSpace s)))"

text \<open>\<^verbatim>\<open>s.toLowerCase()\<close>: within ASCII only the letters A to Z change.\<close>

definition toLowerChar :: "char \<Rightarrow> char" where
  "toLowerChar c =
     (let n = (of_char c :: nat) in if 65 \<le> n \<and> n \<le> 90 then char_of (n + 32) else c)"

definition toLowerCase :: "string \<Rightarrow> string" where
  "toLowerCase s = map toLowerChar s"

text \<open>\<^verbatim>\<open>haystack.includes(needle)\<close>: the needle occurs as a contiguous run.\<close>

definition strIncludes :: "string \<Rightarrow> string \<Rightarrow> bool" where
  "strIncludes haystack needle = sublist needle haystack"

text \<open>\<^verbatim>\<open>arr.join(sep)\<close> on an array of strings.\<close>

fun joinStr :: "string \<Rightarrow> string list \<Rightarrow> string" where
  "joinStr sep [] = []"
| "joinStr sep [x] = x"
| "joinStr sep (x # y # ys) = x @ sep @ joinStr sep (y # ys)"

text \<open>
  \<^verbatim>\<open>s.split(/\s+/)\<close>: the pieces between maximal runs of white space; a run at the
  start or at the end of the string leaves an empty piece there, and the empty string
  gives one empty piece.
\<close>

function splitPieces :: "string \<Rightarrow> string \<Rightarrow> string list" where
  "splitPieces cur [] = [cur]"
| "splitPieces cur (c # cs) =
     (if isSpace c then cur # splitPieces [] (dropWhile isSpace cs)
      else splitPieces (cur @ [c]) cs)"
  by pat_completeness auto
termination
  by (relation "measure (\<lambda>(cur, s). length s)")
     (auto simp: le_imp_less_Suc length_dropWhile_le)

definition splitWs :: "string \<Rightarrow> string list" where
  "splitWs s = splitPieces [] s"

text \<open>\<^verbatim>\<open>String(n)\<close> for an integer \<open>n\<close>: its decimal digits, with a sign when negative.\<close>

fun natDigits :: "nat \<Rightarrow> string" where
  "natDigits n =
     (if n < 10 then [char_of (48 + n)] else natDigits (n div 10) @ [char_of (48 + n mod 10)])"

definition showInt :: "int \<Rightarrow> string" where
  "showInt i = (if i < 0 then CHR ''-'' # natDigits (nat (- i)) else natDigits (nat i))"

subsection \<open>Numbers\<close>

text \<open>
  A JavaScript number as far as this program computes with it: \<^verbatim>\<open>NaN\<close> or a finite
  value, taken exactly. \<^verbatim>\<open>NaN\<close> is absorbing in arithmetic and in \<^verbatim>\<open>Math.max\<close>,
  and it is falsy, as is 0.
\<close>

datatype jsnum = NaN | Num rat

fun jsAdd :: "jsnum \<Rightarrow> jsnum \<Rightarrow> jsnum" where
  "jsAdd (Num a) (Num b) = Num (a + b)"
| "jsAdd _ _ = NaN"

fun jsSub :: "jsnum \<Rightarrow> jsnum \<Rightarrow> jsnum" where
  "jsSub (Num a) (Num b) = Num (a - b)"
| "jsSub _ _ = NaN"

text \<open>Division by a non-zero finite constant.\<close>

fun jsDivBy :: "jsnum \<Rightarrow> rat \<Rightarrow> jsnum" where
  "jsDivBy (Num a) d = Num (a / d)"
| "jsDivBy NaN d = NaN"

fun mathMax :: "jsnum \<Rightarrow> jsnum \<Rightarrow> jsnum" where
  "mathMax (Num a) (Num b) = Num (max a b)"
| "mathMax _ _ = NaN"

text \<open>\<^verbatim>\<open>a || b\<close> on numbers.\<close>

fun jsOr :: "jsnum \<Rightarrow> jsnum \<Rightarrow> jsnum" where
  "jsOr (Num a) b = (if a \<noteq> 0 then Num a else b)"
| "jsOr NaN b = b"

subsection \<open>Dates\<close>

text \<open>
  The \<^verbatim>\<open>Date\<close> built-in belongs to the platform, not to the program, and is a
  parameter of the model: \<open>dateParse s\<close> is the time value (milliseconds since the epoch)
  that \<^verbatim>\<open>new Date(s)\<close> holds for a string \<open>s\<close>, or \<^term>\<open>None\<close> when the string does
  not parse and the date is an Invalid Date, whose time value is \<^verbatim>\<open>NaN\<close>;
  \<open>fullYear t\<close> is what \<^verbatim>\<open>getFullYear()\<close> returns for a valid time value (the year in
  local time); \<open>dateNow\<close> is \<^verbatim>\<open>Date.now()\<close>, taken as fixed during one recomputation.
\<close>

record platform =
  dateParse :: "string \<Rightarrow> int option"
  fullYear :: "int \<Rightarrow> int"
  dateNow :: int

text \<open>
  \<^verbatim>\<open>new Date(iso)\<close>, as its time value. The constructor does not throw on a string or
  on \<^verbatim>\<open>undefined\<close>: an absent argument value and an unparseable string both give an
  Invalid Date.
\<close>

definition newDate :: "platform \<Rightarrow> string option \<Rightarrow> int option" where
  "newDate pf isoStr = (case isoStr of None \<Rightarrow> None | Some s \<Rightarrow> dateParse pf s)"

text \<open>The time value as a number: \<^verbatim>\<open>d.getTime()\<close>, also what \<^verbatim>\<open>d1 - d2\<close> subtracts.\<close>

definition getTime :: "int option \<Rightarrow> jsnum" where
  "getTime d = (case d of None \<Rightarrow> NaN | Some t \<Rightarrow> Num (rat_of_int t))"

text \<open>
  \<^verbatim>\<open>String(d.getFullYear())\<close>: \<^verbatim>\<open>getFullYear\<close> of an Invalid Date is \<^verbatim>\<open>NaN\<close>, and
  \<^verbatim>\<open>String(NaN)\<close> is the three letters \<^verbatim>\<open>NaN\<close>.
\<close>

definition fullYearString :: "platform \<Rightarrow> int option \<Rightarrow> string" where
  "fullYearString pf d = (case d of None \<Rightarrow> ''NaN'' | Some t \<Rightarrow> showInt (fullYear pf t))"

subsection \<open>Small utilities\<close>

text \<open>\<^verbatim>\<open>const clamp = (n, min, max) => Math.max(min, Math.min(max, n))\<close>\<close>

definition clamp :: "int \<Rightarrow> int \<Rightarrow> int \<Rightarrow> int" where
  "clamp n lo hi = max lo (min hi n)"

subsection \<open>Content items and the query state\<close>

text \<open>
  A content item as the program reads it. Every field but the identifiers may be absent
  (\<^term>\<open>None\<close> is \<^verbatim>\<open>undefined\<close>). The fields that only the rendering reads
  (\<^verbatim>\<open>version\<close>, \<^verbatim>\<open>words\<close>, \<^verbatim>\<open>duration_sec\<close>, \<^verbatim>\<open>file_url\<close>, \<^verbatim>\<open>cover_url\<close>) are
  left out.
\<close>

record item =
  item_id :: nat
  slug :: string
  title :: "string option"
  summary :: "string option"
  industries :: "string list option"
  personas :: "string list option"
  topics :: "string list option"
  tags :: "string list option"
  funnel_stage :: "string option"
  release_date :: "string option"
  read_time_min :: "rat option"
  content_type :: "string option"

text \<open>
  The state of the \<^verbatim>\<open>App\<close> component that the query engine reads: the search term, one
  selection list per facet dimension, the sort mode, the page and the page size.
\<close>

record ui_state =
  st_q :: string
  st_ctype :: "string list"
  st_industries :: "string list"
  st_personas :: "string list"
  st_topics :: "string list"
  st_tags :: "string list"
  st_stage :: "string list"
  st_year :: "string list"
  st_sort :: string
  st_page :: int
  st_pageSize :: int

text \<open>The initial values of the \<^verbatim>\<open>useState\<close> calls.\<close>

definition initialState :: ui_state where
  "initialState =
     \<lparr> st_q = [], st_ctype = [], st_industries = [], st_personas = [], st_topics = [],
       st_tags = [], st_stage = [], st_year = [], st_sort = ''relevance'', st_page = 1,
       st_pageSize = 12 \<rparr>"

text \<open>\<^verbatim>\<open>x || ""\<close>, \<^verbatim>\<open>x || d\<close> for a non-empty default, \<^verbatim>\<open>x || []\<close> and \<^verbatim>\<open>x || 0\<close>: an absent
  value is falsy, as are the empty string and 0; an array is always truthy.\<close>

definition strOr :: "string option \<Rightarrow> string" where
  "strOr x = (case x of None \<Rightarrow> [] | Some t \<Rightarrow> t)"

definition strOrDefault :: "string option \<Rightarrow> string \<Rightarrow> string" where
  "strOrDefault x d = (case x of None \<Rightarrow> d | Some t \<Rightarrow> if t = [] then d else t)"

definition arrOr :: "'a list option \<Rightarrow> 'a list" where
  "arrOr x = (case x of None \<Rightarrow> [] | Some ys \<Rightarrow> ys)"

definition numOr0 :: "rat option \<Rightarrow> rat" where
  "numOr0 x = (case x of None \<Rightarrow> 0 | Some r \<Rightarrow> r)"

text \<open>\<^verbatim>\<open>arr.includes(x)\<close> for an array of strings and a field that may be absent:
  \<^verbatim>\<open>undefined\<close> is no element of an array of strings.\<close>

definition includesField :: "string list \<Rightarrow> string option \<Rightarrow> bool" where
  "includesField arr x = (case x of None \<Rightarrow> False | Some t \<Rightarrow> arrIncludes arr t)"

subsection \<open>Text matching, year, tally\<close>

text \<open>
  \<^verbatim>\<open>function includesI(haystack, needle) {
    return haystack.toLowerCase().includes(needle.toLowerCase());
  }\<close>
\<close>

definition includesI :: "string \<Rightarrow> string \<Rightarrow> bool" where
  "includesI haystack needle = strIncludes (toLowerCase haystack) (toLowerCase needle)"

text \<open>
  \<^verbatim>\<open>function fullTextMatch(p, q) {
    if (!q) return true;
    const fields = [
      p.title || "", p.summary || "",
      ...(p.topics || []), ...(p.tags || []), ...(p.personas || []), ...(p.industries || []),
    ].join(" \n ");
    return includesI(fields, q);
  }\<close>
\<close>

definition fieldSep :: string where
  "fieldSep = [CHR 0x20, CHR 0x0A, CHR 0x20]"

definition matchFields :: "item \<Rightarrow> string list" where
  "matchFields p =
     [strOr (title p), strOr (summary p)]
       @ arrOr (topics p) @ arrOr (tags p) @ arrOr (personas p) @ arrOr (industries p)"

definition fullTextMatch :: "item \<Rightarrow> string \<Rightarrow> bool" where
  "fullTextMatch p qs =
     (if qs = [] then True else includesI (joinStr fieldSep (matchFields p)) qs)"

text \<open>
  \<^verbatim>\<open>function computeYear(iso) {
    try { return String(new Date(iso).getFullYear()); } catch { return ""; }
  }\<close>
  None of the three calls of the \<^verbatim>\<open>try\<close> block throws for a string or an absent
  argument, so the \<^verbatim>\<open>catch\<close> arm has no input that reaches it and the model has no
  branch for it.
\<close>

definition computeYear :: "platform \<Rightarrow> string option \<Rightarrow> string" where
  "computeYear pf isoStr = fullYearString pf (newDate pf isoStr)"

text \<open>
  \<^verbatim>\<open>function tally(arr) {
    const m = {};
    for (const k of arr) m[k] = (m[k] || 0) + 1;
    return m;
  }\<close>
  The object \<open>m\<close> is created by an object literal, so it inherits from
  \<^verbatim>\<open>Object.prototype\<close>, and \<^verbatim>\<open>m[k]\<close> reads an inherited property when \<open>m\<close> has no own
  property \<open>k\<close>. For the method names of \<^verbatim>\<open>Object.prototype\<close> the value read is a
  function, which is truthy; adding 1 to it gives a string (the text of the function and
  the digit 1), which is stored and grows by one digit at every later occurrence. For
  \<^verbatim>\<open>__proto__\<close> the value read is the prototype object, and the assignment of the
  resulting string is ignored by the \<^verbatim>\<open>__proto__\<close> setter. The model keeps of such a string
  only that it is not a count: its characters depend on the engine.
\<close>

datatype tally_value = Count nat | NonNumeric

type_synonym tally_object = "string \<rightharpoonup> tally_value"

definition objectPrototypeMethods :: "string list" where
  "objectPrototypeMethods =
     [''constructor'', ''__defineGetter__'', ''__defineSetter__'', ''hasOwnProperty'',
      ''__lookupGetter__'', ''__lookupSetter__'', ''isPrototypeOf'',
      ''propertyIsEnumerable'', ''toString'', ''valueOf'', ''toLocaleString'']"

definition tallyStep :: "tally_object \<Rightarrow> string \<Rightarrow> tally_object" where
  "tallyStep m k =
     (case m k of
        Some (Count n) \<Rightarrow> m(k \<mapsto> Count (n + 1))
      | Some NonNumeric \<Rightarrow> m(k \<mapsto> NonNumeric)
      | None \<Rightarrow>
          if k = ''__proto__'' then m
          else if arrIncludes objectPrototypeMethods k then m(k \<mapsto> NonNumeric)
          else m(k \<mapsto> Count 1))"

definition tally :: "string list \<Rightarrow> tally_object" where
  "tally arr = fold (\<lambda>k m. tallyStep m k) arr Map.empty"

subsection \<open>Filtering\<close>

text \<open>
  The callback of \<^verbatim>\<open>items.filter\<close> in \<^verbatim>\<open>filtered\<close>, check by check in the source's
  order; \<open>sel.length && !...\<close> is written \<open>sel \<noteq> [] \<and> \<not> ...\<close>.
\<close>

definition passes :: "platform \<Rightarrow> ui_state \<Rightarrow> item \<Rightarrow> bool" where
  "passes pf st p =
     (let qTrim = trim (st_q st) in
      if \<not> fullTextMatch p qTrim then False
      else if st_ctype st \<noteq> [] \<and> \<not> includesField (st_ctype st) (content_type p) then False
      else if st_industries st \<noteq> []
              \<and> \<not> list_all (\<lambda>v. arrIncludes (arrOr (industries p)) v) (st_industries st)
        then False
      else if st_personas st \<noteq> []
              \<and> \<not> list_all (\<lambda>v. arrIncludes (arrOr (personas p)) v) (st_personas st)
        then False
      else if st_topics st \<noteq> []
              \<and> \<not> list_all (\<lambda>v. arrIncludes (arrOr (topics p)) v) (st_topics st)
        then False
      else if st_tags st \<noteq> []
              \<and> \<not> list_all (\<lambda>v. arrIncludes (arrOr (tags p)) v) (st_tags st)
        then False
      else if st_stage st \<noteq> [] \<and> \<not> includesField (st_stage st) (funnel_stage p) then False
      else if st_year st \<noteq> []
              \<and> \<not> arrIncludes (st_year st) (computeYear pf (release_date p))
        then False
      else True)"

definition filtered :: "platform \<Rightarrow> ui_state \<Rightarrow> item list \<Rightarrow> item list" where
  "filtered pf st items = filter (passes pf st) items"

subsection \<open>Sorting\<close>

text \<open>
  \<^verbatim>\<open>arr.sort(cmp)\<close>. The sort is stable, an element \<open>x\<close> goes behind \<open>y\<close> only when
  \<open>cmp(x, y) > 0\<close>, and a comparator result \<^verbatim>\<open>NaN\<close> counts as 0. For a consistent
  comparator these rules fix the result, and the model computes it by stable insertion;
  for an inconsistent one ECMAScript leaves the order to the engine.
\<close>

definition positive :: "jsnum \<Rightarrow> bool" where
  "positive v = (case v of NaN \<Rightarrow> False | Num r \<Rightarrow> 0 < r)"

fun insertBy :: "('a \<Rightarrow> 'a \<Rightarrow> jsnum) \<Rightarrow> 'a \<Rightarrow> 'a list \<Rightarrow> 'a list" where
  "insertBy cmp x [] = [x]"
| "insertBy cmp x (y # ys) =
     (if positive (cmp x y) then y # insertBy cmp x ys else x # y # ys)"

definition arraySort :: "('a \<Rightarrow> 'a \<Rightarrow> jsnum) \<Rightarrow> 'a list \<Rightarrow> 'a list" where
  "arraySort cmp arr = foldr (insertBy cmp) arr []"

text \<open>\<^verbatim>\<open>new Date(a.release_date) - new Date(b.release_date)\<close>\<close>

definition dateDiff :: "platform \<Rightarrow> item \<Rightarrow> item \<Rightarrow> jsnum" where
  "dateDiff pf a b =
     jsSub (getTime (newDate pf (release_date a))) (getTime (newDate pf (release_date b)))"

text \<open>
  The \<^verbatim>\<open>score\<close> function of the relevance branch. \<open>terms\<close> is
  \<^verbatim>\<open>q.trim().toLowerCase().split(/\s+/)\<close>; the loop skips an empty term and adds 5, 2
  and 1 for a hit in the title, in the summary and in the whole text.
\<close>

definition joinIfArray :: "string list option \<Rightarrow> string" where
  "joinIfArray x = (case x of None \<Rightarrow> [] | Some ys \<Rightarrow> joinStr [CHR 0x20] ys)"

definition scoreText :: "item \<Rightarrow> string" where
  "scoreText p =
     strOr (title p) @ [CHR 0x0A] @ strOr (summary p) @ [CHR 0x0A]
       @ joinIfArray (topics p) @ [CHR 0x0A] @ joinIfArray (tags p) @ [CHR 0x0A]
       @ joinIfArray (personas p) @ [CHR 0x0A] @ joinIfArray (industries p)"

definition scoreTerm :: "item \<Rightarrow> string \<Rightarrow> rat \<Rightarrow> rat" where
  "scoreTerm p w s =
     (if w = [] then s
      else
        let s1 = (if strIncludes (toLowerCase (strOr (title p))) w then s + 5 else s);
            s2 = (if strIncludes (toLowerCase (strOr (summary p))) w then s1 + 2 else s1);
            s3 = (if strIncludes (toLowerCase (scoreText p)) w then s2 + 1 else s2)
        in s3)"

definition msPerYear :: rat where
  "msPerYear = 1000 * 60 * 60 * 24 * 365"

definition score :: "platform \<Rightarrow> string \<Rightarrow> item \<Rightarrow> jsnum" where
  "score pf qs p =
     (let terms = splitWs (toLowerCase (trim qs));
          s = fold (scoreTerm p) terms 0;
          yearsOld =
            jsDivBy (jsSub (Num (rat_of_int (dateNow pf)))
                           (getTime (newDate pf (release_date p)))) msPerYear
      in jsAdd (Num s) (mathMax (Num 0) (jsSub (Num 2) yearsOld)))"

text \<open>
  \<^verbatim>\<open>sorted\<close>: a copy of the filtered list, sorted by the comparator of the sort mode. The
  \<^verbatim>\<open>default\<close> arm of the \<^verbatim>\<open>switch\<close> takes the mode \<^verbatim>\<open>relevance\<close> and any other string.
\<close>

definition sortedItems :: "platform \<Rightarrow> ui_state \<Rightarrow> item list \<Rightarrow> item list" where
  "sortedItems pf st flt =
     (if st_sort st = ''newest'' then arraySort (\<lambda>a b. dateDiff pf b a) flt
      else if st_sort st = ''oldest'' then arraySort (\<lambda>a b. dateDiff pf a b) flt
      else if st_sort st = ''shortest'' then
        arraySort (\<lambda>a b. jsOr (Num (numOr0 (read_time_min a) - numOr0 (read_time_min b)))
                              (dateDiff pf b a)) flt
      else if st_sort st = ''longest'' then
        arraySort (\<lambda>a b. jsOr (Num (numOr0 (read_time_min b) - numOr0 (read_time_min a)))
                              (dateDiff pf b a)) flt
      else if trim (st_q st) \<noteq> [] then
        arraySort (\<lambda>a b. jsSub (score pf (st_q st) b) (score pf (st_q st) a)) flt
      else arraySort (\<lambda>a b. dateDiff pf b a) flt)"

subsection \<open>Facet tallies\<close>

text \<open>
  \<^verbatim>\<open>facets\<close>: the seven tallies over the filtered list. A missing or empty content type
  is tallied as \<^verbatim>\<open>content\<close>; a missing funnel stage is the property key
  \<^verbatim>\<open>undefined\<close>.
\<close>

record facets =
  f_type :: tally_object
  f_year :: tally_object
  f_industries :: tally_object
  f_personas :: tally_object
  f_topics :: tally_object
  f_tags :: tally_object
  f_stage :: tally_object

definition keyOf :: "string option \<Rightarrow> string" where
  "keyOf x = (case x of None \<Rightarrow> ''undefined'' | Some t \<Rightarrow> t)"

definition facetsOf :: "platform \<Rightarrow> item list \<Rightarrow> facets" where
  "facetsOf pf flt =
     (let yrs = map (\<lambda>p. computeYear pf (release_date p)) flt;
          typ = map (\<lambda>p. strOrDefault (content_type p) ''content'') flt;
          ind = concat (map (\<lambda>p. arrOr (industries p)) flt);
          per = concat (map (\<lambda>p. arrOr (personas p)) flt);
          top = concat (map (\<lambda>p. arrOr (topics p)) flt);
          tag = concat (map (\<lambda>p. arrOr (tags p)) flt);
          stg = map (\<lambda>p. keyOf (funnel_stage p)) flt
      in \<lparr> f_type = tally typ, f_year = tally yrs, f_industries = tally ind,
           f_personas = tally per, f_topics = tally top, f_tags = tally tag,
           f_stage = tally stg \<rparr>)"

subsection \<open>Pagination\<close>

text \<open>
  \<^verbatim>\<open>const total = sorted.length;
  const pageCount = Math.max(1, Math.ceil(total / pageSize));
  const safePage = clamp(page, 1, pageCount);
  const pageItems = sorted.slice((safePage - 1) * pageSize, safePage * pageSize);\<close>
  The page and the page size are integers; the quotient is taken exactly. The list
  \<open>srt\<close> is the source's \<^verbatim>\<open>sorted\<close>.
\<close>

definition pageCount :: "'a list \<Rightarrow> int \<Rightarrow> int" where
  "pageCount srt pageSize =
     max 1 (ceiling (rat_of_nat (length srt) / rat_of_int pageSize))"

definition safePage :: "'a list \<Rightarrow> int \<Rightarrow> int \<Rightarrow> int" where
  "safePage srt pageSize page = clamp page 1 (pageCount srt pageSize)"

definition pageItems :: "'a list \<Rightarrow> int \<Rightarrow> int \<Rightarrow> 'a list" where
  "pageItems srt pageSize page =
     (let sp = safePage srt pageSize page
      in jsSlice srt ((sp - 1) * pageSize) (sp * pageSize))"

subsection \<open>Facet selection toggle\<close>

text \<open>
  \<^verbatim>\<open>const toggle = (setter, arr, v) =>
    setter(arr.includes(v) ? arr.filter((x) => x !== v) : [...arr, v]);\<close>
  The model returns the array handed to the setter.
\<close>

definition toggle :: "'a list \<Rightarrow> 'a \<Rightarrow> 'a list" where
  "toggle arr v = (if arrIncludes arr v then filter (\<lambda>x. x \<noteq> v) arr else arr @ [v])"

subsection \<open>Catalog loader\<close>

text \<open>The fallback catalog \<^verbatim>\<open>SAMPLE.items\<close>.\<close>

definition sampleZeroTrust :: item where
  "sampleZeroTrust =
     \<lparr> item_id = 1, slug = ''zero-trust-2025'',
       title = Some ''Zero Trust for 2025: Practical Roadmap'',
       summary = Some ''A pragmatic guide to sequencing identity, device posture, and micro-segmentation for mid-market enterprises.'',
       industries = Some [''Tech'', ''Finance''],
       personas = Some [''CISO'', ''CIO''],
       topics = Some [''Zero Trust'', ''Identity'', ''Micro-segmentation''],
       tags = Some [''Security'', ''Architecture''],
       funnel_stage = Some ''Consideration'',
       release_date = Some ''2025-10-15'',
       read_time_min = Some 11,
       content_type = Some ''whitepaper'' \<rparr>"

definition sampleAiGovernance :: item where
  "sampleAiGovernance =
     \<lparr> item_id = 2, slug = ''ai-governance-intro'',
       title = Some ''AI Governance Explained (Short Video)'',
       summary = Some ''A 2-minute explainer on policy, model evals, and provenance.'',
       industries = Some [''Tech''],
       personas = Some [''CTO'', ''Head of Data''],
       topics = Some [''LLM'', ''Safety'', ''Provenance''],
       tags = Some [''AI'', ''Video''],
       funnel_stage = Some ''Awareness'',
       release_date = Some ''2025-08-01'',
       read_time_min = None,
       content_type = Some ''video'' \<rparr>"

definition sampleDevIntent :: item where
  "sampleDevIntent =
     \<lparr> item_id = 3, slug = ''developer-intent-blueprint'',
       title = Some ''Developer Intent Blueprint'',
       summary = Some ''How to use public, verifiable signals to prioritize accounts without renting a DMP.'',
       industries = Some [''SaaS'', ''Tech''],
       personas = Some [''VP Marketing'', ''Growth''],
       topics = Some [''Developer Intent'', ''ABM'', ''Data''],
       tags = Some [''Demand Gen'', ''Signals''],
       funnel_stage = Some ''Decision'',
       release_date = Some ''2025-09-20'',
       read_time_min = Some 13,
       content_type = Some ''whitepaper'' \<rparr>"

definition SAMPLE_items :: "item list" where
  "SAMPLE_items = [sampleZeroTrust, sampleAiGovernance, sampleDevIntent]"

definition DATA_URL :: string where
  "DATA_URL = ''https://pub-9d76e1d511764457a42a4f9797dbe836.r2.dev/index.json?v=20251119''"

text \<open>
  A parsed JSON body, and the values a property read or the state can hold. The elements
  of an array are content items.
\<close>

datatype jsval =
    Undefined
  | Null
  | Boolean bool
  | Number rat
  | Str string
  | Array "item list"
  | Object "(string \<times> jsval) list"

fun truthy :: "jsval \<Rightarrow> bool" where
  "truthy Undefined = False"
| "truthy Null = False"
| "truthy (Boolean b) = b"
| "truthy (Number r) = (r \<noteq> 0)"
| "truthy (Str t) = (t \<noteq> [])"
| "truthy (Array xs) = True"
| "truthy (Object kvs) = True"

datatype js_error = NetworkError | HttpError nat | SyntaxError | TypeError

text \<open>
  \<^verbatim>\<open>json.items\<close>: reading a property of \<^verbatim>\<open>null\<close> throws a \<^verbatim>\<open>TypeError\<close>; an object
  gives its own property or \<^verbatim>\<open>undefined\<close>; a boolean, a number and a string have
  no such property.
\<close>

fun getItems :: "jsval \<Rightarrow> js_error + jsval" where
  "getItems Undefined = Inl TypeError"
| "getItems Null = Inl TypeError"
| "getItems (Object kvs) =
     Inr (case map_of kvs ''items'' of None \<Rightarrow> Undefined | Some v \<Rightarrow> v)"
| "getItems v = Inr Undefined"

text \<open>
  What the one fetch can do: the promise of \<^verbatim>\<open>fetch\<close> rejects (a network failure), or
  it resolves to a response with its \<^verbatim>\<open>ok\<close> flag, its status and its body, where
  the body \<^term>\<open>None\<close> stands for a body that \<^verbatim>\<open>r.json()\<close> cannot parse.
\<close>

datatype response = Response (resp_ok: bool) (resp_status: nat) (resp_json: "jsval option")

datatype fetch_outcome = Rejected | Resolved response

record load_state =
  ls_items :: jsval
  ls_loading :: bool
  ls_error :: string

text \<open>
  The \<^verbatim>\<open>try\<close> block of \<^verbatim>\<open>run\<close> up to the value handed to \<^verbatim>\<open>setItems\<close>:
  \<^verbatim>\<open>if (DATA_URL) {
    const r = await fetch(DATA_URL, { mode: "cors" });
    if (!r.ok) throw new Error(`HTTP ${r.status}`);
    const json = await r.json();
    const arr = Array.isArray(json) ? json : json.items || [];
    ...
  } else { ... SAMPLE.items ... }\<close>
\<close>

definition fetchItems :: "fetch_outcome \<Rightarrow> js_error + jsval" where
  "fetchItems out =
     (if DATA_URL \<noteq> [] then
        (case out of
           Rejected \<Rightarrow> Inl NetworkError
         | Resolved r \<Rightarrow>
             if \<not> resp_ok r then Inl (HttpError (resp_status r))
             else
               (case resp_json r of
                  None \<Rightarrow> Inl SyntaxError
                | Some json \<Rightarrow>
                    (case json of
                       Array xs \<Rightarrow> Inr json
                     | _ \<Rightarrow>
                         (case getItems json of
                            Inl e \<Rightarrow> Inl e
                          | Inr v \<Rightarrow> Inr (if truthy v then v else Array [])))))
      else Inr (Array SAMPLE_items))"

text \<open>
  \<^verbatim>\<open>run\<close>, from the initial state of the component (no items, loading, no error) to
  the state after the fetch has settled. \<open>cancelled\<close> is the flag the cleanup of the
  effect sets; it is read only after the last \<^verbatim>\<open>await\<close>.
\<close>

definition initialLoad :: load_state where
  "initialLoad = \<lparr> ls_items = Array [], ls_loading = True, ls_error = [] \<rparr>"

definition run :: "bool \<Rightarrow> fetch_outcome \<Rightarrow> load_state" where
  "run cancelled out =
     (let s0 = initialLoad \<lparr> ls_loading := True, ls_error := [] \<rparr>;
          s1 = (case fetchItems out of
                  Inr arr \<Rightarrow> if \<not> cancelled then s0 \<lparr> ls_items := arr \<rparr> else s0
                | Inl e \<Rightarrow>
                    if \<not> cancelled
                    then s0 \<lparr> ls_items := Array SAMPLE_items,
                              ls_error := ''Using fallback sample data.'' \<rparr>
                    else s0)
      in if \<not> cancelled then s1 \<lparr> ls_loading := False \<rparr> else s1)"

text \<open>
  The two kinds of state the loader ends in: the items of the response with no warning,
  and the fallback catalog with the warning.
\<close>

definition fallbackState :: load_state where
  "fallbackState =
     \<lparr> ls_items = Array SAMPLE_items, ls_loading = False,
       ls_error = ''Using fallback sample data.'' \<rparr>"

definition loadedState :: "item list \<Rightarrow> load_state" where
  "loadedState xs = \<lparr> ls_items = Array xs, ls_loading = False, ls_error = [] \<rparr>"

subsection \<open>A platform for the examples\<close>

text \<open>
  The examples run on a platform whose local time is UTC and whose parser accepts the
  date-only form \<^verbatim>\<open>YYYY-MM-DD\<close> (midnight UTC, as ECMAScript prescribes for it) and
  nothing else. Days are counted in the proleptic Gregorian calendar.
\<close>

definition digitValue :: "char \<Rightarrow> nat option" where
  "digitValue c = map_of (zip ''0123456789'' [0 ..< 10]) c"

fun digitsValue :: "nat \<Rightarrow> string \<Rightarrow> nat option" where
  "digitsValue acc [] = Some acc"
| "digitsValue acc (c # cs) =
     (case digitValue c of None \<Rightarrow> None | Some d \<Rightarrow> digitsValue (10 * acc + d) cs)"

definition daysFromCivil :: "int \<Rightarrow> int \<Rightarrow> int \<Rightarrow> int" where
  "daysFromCivil y m d =
     (let y1 = (if m \<le> 2 then y - 1 else y);
          era = y1 div 400;
          yoe = y1 - era * 400;
          doy = (153 * (if 2 < m then m - 3 else m + 9) + 2) div 5 + d - 1;
          doe = yoe * 365 + yoe div 4 - yoe div 100 + doy
      in era * 146097 + doe - 719468)"

definition yearOfDays :: "int \<Rightarrow> int" where
  "yearOfDays z0 =
     (let z = z0 + 719468;
          era = z div 146097;
          doe = z - era * 146097;
          yoe = (doe - doe div 1460 + doe div 36524 - doe div 146096) div 365;
          doy = doe - (365 * yoe + yoe div 4 - yoe div 100);
          mp = (5 * doy + 2) div 153;
          m = (if mp < 10 then mp + 3 else mp - 9)
      in yoe + era * 400 + (if m \<le> 2 then 1 else 0))"

definition daysInMonth :: "int \<Rightarrow> int \<Rightarrow> int" where
  "daysInMonth y m =
     (if m = 2 then (if y mod 4 = 0 \<and> (y mod 100 \<noteq> 0 \<or> y mod 400 = 0) then 29 else 28)
      else if m = 4 \<or> m = 6 \<or> m = 9 \<or> m = 11 then 30 else 31)"

definition parseDateOnly :: "string \<Rightarrow> int option" where
  "parseDateOnly s =
     (if length s = 10 \<and> s ! 4 = CHR ''-'' \<and> s ! 7 = CHR ''-'' then
        (case (digitsValue 0 (take 4 s), digitsValue 0 (take 2 (drop 5 s)),
               digitsValue 0 (drop 8 s)) of
           (Some y, Some m, Some d) \<Rightarrow>
             if 1 \<le> m \<and> m \<le> 12 \<and> 1 \<le> d \<and> int d \<le> daysInMonth (int y) (int m)
             then Some (daysFromCivil (int y) (int m) (int d) * 86400000)
             else None
         | _ \<Rightarrow> None)
      else None)"

text \<open>The clock of the examples stands at 2025-11-19, midnight UTC.\<close>

definition utcPlatform :: platform where
  "utcPlatform =
     \<lparr> dateParse = parseDateOnly,
       fullYear = (\<lambda>t. yearOfDays (t div 86400000)),
       dateNow = 20411 * 86400000 \<rparr>"

text \<open>
  Items for the examples: the video of the sample catalog under another slug and with
  another release date (it declares no read time), and the first whitepaper with the read
  time of the second.
\<close>

definition releasedOn :: "string \<Rightarrow> string \<Rightarrow> item" where
  "releasedOn name d = sampleAiGovernance\<lparr>slug := name, release_date := Some d\<rparr>"

definition sampleZeroTrustLong :: item where
  "sampleZeroTrustLong =
     sampleZeroTrust\<lparr>slug := ''zero-trust-long'', read_time_min := Some 13\<rparr>"

section \<open>Verified properties\<close>

subsection \<open>Filtering\<close>

lemma includesField_iff: "includesField arr x \<longleftrightarrow> x \<in> Some ` set arr"
  by (auto simp: includesField_def arrIncludes_def split: option.splits)

lemma every_includes_iff: "list_all (\<lambda>v. arrIncludes xs v) sel \<longleftrightarrow> set sel \<subseteq> set xs"
  by (auto simp: list_all_iff arrIncludes_def)

lemma passes_iff:
  "passes pf st p \<longleftrightarrow>
     fullTextMatch p (trim (st_q st))
   \<and> (st_ctype st = [] \<or> content_type p \<in> Some ` set (st_ctype st))
   \<and> (st_industries st = [] \<or> set (st_industries st) \<subseteq> set (arrOr (industries p)))
   \<and> (st_personas st = [] \<or> set (st_personas st) \<subseteq> set (arrOr (personas p)))
   \<and> (st_topics st = [] \<or> set (st_topics st) \<subseteq> set (arrOr (topics p)))
   \<and> (st_tags st = [] \<or> set (st_tags st) \<subseteq> set (arrOr (tags p)))
   \<and> (st_stage st = [] \<or> funnel_stage p \<in> Some ` set (st_stage st))
   \<and> (st_year st = [] \<or> computeYear pf (release_date p) \<in> set (st_year st))"
  unfolding passes_def Let_def includesField_iff every_includes_iff arrIncludes_def
  by (simp only: if_bool_eq_conj) blast

text \<open>
  C3. For a non-empty selection \<open>sel\<close> on one of the multi-valued dimensions (industries,
  personas, topics, tags), an item passes the filter under that selection iff its label
  list for the dimension (empty when the field is absent) contains every selected value
  and the item passes the filter with that dimension's selection cleared. So an item
  whose field is absent fails, and with the selection \<open>[A, B]\<close> an item that lacks \<open>A\<close> or
  lacks \<open>B\<close> is excluded.
\<close>

theorem multi_valued_facets_need_all_selected:
  assumes "sel \<noteq> []"
  shows "(passes pf (st\<lparr>st_industries := sel\<rparr>) p \<longleftrightarrow>
            set sel \<subseteq> set (arrOr (industries p)) \<and> passes pf (st\<lparr>st_industries := []\<rparr>) p)
       \<and> (passes pf (st\<lparr>st_personas := sel\<rparr>) p \<longleftrightarrow>
            set sel \<subseteq> set (arrOr (personas p)) \<and> passes pf (st\<lparr>st_personas := []\<rparr>) p)
       \<and> (passes pf (st\<lparr>st_topics := sel\<rparr>) p \<longleftrightarrow>
            set sel \<subseteq> set (arrOr (topics p)) \<and> passes pf (st\<lparr>st_topics := []\<rparr>) p)
       \<and> (passes pf (st\<lparr>st_tags := sel\<rparr>) p \<longleftrightarrow>
            set sel \<subseteq> set (arrOr (tags p)) \<and> passes pf (st\<lparr>st_tags := []\<rparr>) p)
       \<and> (industries p = None \<longrightarrow> \<not> passes pf (st\<lparr>st_industries := sel\<rparr>) p)
       \<and> (personas p = None \<longrightarrow> \<not> passes pf (st\<lparr>st_personas := sel\<rparr>) p)
       \<and> (topics p = None \<longrightarrow> \<not> passes pf (st\<lparr>st_topics := sel\<rparr>) p)
       \<and> (tags p = None \<longrightarrow> \<not> passes pf (st\<lparr>st_tags := sel\<rparr>) p)
       \<and> (A \<notin> set (arrOr (industries p)) \<or> B \<notin> set (arrOr (industries p)) \<longrightarrow>
            \<not> passes pf (st\<lparr>st_industries := [A, B]\<rparr>) p)
       \<and> (A \<notin> set (arrOr (personas p)) \<or> B \<notin> set (arrOr (personas p)) \<longrightarrow>
            \<not> passes pf (st\<lparr>st_personas := [A, B]\<rparr>) p)
       \<and> (A \<notin> set (arrOr (topics p)) \<or> B \<notin> set (arrOr (topics p)) \<longrightarrow>
            \<not> passes pf (st\<lparr>st_topics := [A, B]\<rparr>) p)
       \<and> (A \<notin> set (arrOr (tags p)) \<or> B \<notin> set (arrOr (tags p)) \<longrightarrow>
            \<not> passes pf (st\<lparr>st_tags := [A, B]\<rparr>) p)"
proof -
  have ne: "set sel \<noteq> {}" using assms by simp
  have i: "passes pf (st\<lparr>st_industries := sel\<rparr>) p \<longleftrightarrow>
            set sel \<subseteq> set (arrOr (industries p)) \<and> passes pf (st\<lparr>st_industries := []\<rparr>) p"
    using assms by (simp add: passes_iff) blast
  have pe: "passes pf (st\<lparr>st_personas := sel\<rparr>) p \<longleftrightarrow>
            set sel \<subseteq> set (arrOr (personas p)) \<and> passes pf (st\<lparr>st_personas := []\<rparr>) p"
    using assms by (simp add: passes_iff) blast
  have to: "passes pf (st\<lparr>st_topics := sel\<rparr>) p \<longleftrightarrow>
            set sel \<subseteq> set (arrOr (topics p)) \<and> passes pf (st\<lparr>st_topics := []\<rparr>) p"
    using assms by (simp add: passes_iff) blast
  have ta: "passes pf (st\<lparr>st_tags := sel\<rparr>) p \<longleftrightarrow>
            set sel \<subseteq> set (arrOr (tags p)) \<and> passes pf (st\<lparr>st_tags := []\<rparr>) p"
    using assms by (simp add: passes_iff) blast
  have n1: "industries p = None \<longrightarrow> \<not> passes pf (st\<lparr>st_industries := sel\<rparr>) p"
    using ne by (simp add: i arrOr_def)
  have n2: "personas p = None \<longrightarrow> \<not> passes pf (st\<lparr>st_personas := sel\<rparr>) p"
    using ne by (simp add: pe arrOr_def)
  have n3: "topics p = None \<longrightarrow> \<not> passes pf (st\<lparr>st_topics := sel\<rparr>) p"
    using ne by (simp add: to arrOr_def)
  have n4: "tags p = None \<longrightarrow> \<not> passes pf (st\<lparr>st_tags := sel\<rparr>) p"
    using ne by (simp add: ta arrOr_def)
  have a1: "A \<notin> set (arrOr (industries p)) \<or> B \<notin> set (arrOr (industries p)) \<longrightarrow>
            \<not> passes pf (st\<lparr>st_industries := [A, B]\<rparr>) p"
    by (simp add: passes_iff) blast
  have a2: "A \<notin> set (arrOr (personas p)) \<or> B \<notin> set (arrOr (personas p)) \<longrightarrow>
            \<not> passes pf (st\<lparr>st_personas := [A, B]\<rparr>) p"
    by (simp add: passes_iff) blast
  have a3: "A \<notin> set (arrOr (topics p)) \<or> B \<notin> set (arrOr (topics p)) \<longrightarrow>
            \<not> passes pf (st\<lparr>st_topics := [A, B]\<rparr>) p"
    by (simp add: passes_iff) blast
  have a4: "A \<notin> set (arrOr (tags p)) \<or> B \<notin> set (arrOr (tags p)) \<longrightarrow>
            \<not> passes pf (st\<lparr>st_tags := [A, B]\<rparr>) p"
    by (simp add: passes_iff) blast
  from i pe to ta n1 n2 n3 n4 a1 a2 a3 a4 show ?thesis by (intro conjI)
qed

theorem multi_valued_facets_need_all_selected_witness:
  "[''Tech'', ''Finance''] \<noteq> []
   \<and> passes utcPlatform (initialState\<lparr>st_industries := [''Tech'', ''Finance'']\<rparr>) sampleZeroTrust
   \<and> ''Finance'' \<notin> set (arrOr (industries sampleDevIntent))
   \<and> \<not> passes utcPlatform (initialState\<lparr>st_industries := [''Tech'', ''Finance'']\<rparr>) sampleDevIntent"
proof -
  have h: "[''Tech'', ''Finance''] \<noteq> []" by simp
  have z: "set [''Tech'', ''Finance''] \<subseteq> set (arrOr (industries sampleZeroTrust))
           \<and> passes utcPlatform (initialState\<lparr>st_industries := []\<rparr>) sampleZeroTrust"
    by code_simp
  have d: "''Finance'' \<notin> set (arrOr (industries sampleDevIntent))"
    by code_simp
  from multi_valued_facets_need_all_selected
         [OF h, of utcPlatform initialState sampleZeroTrust "''Tech''" "''Finance''"] z
  have 1: "passes utcPlatform (initialState\<lparr>st_industries := [''Tech'', ''Finance'']\<rparr>)
             sampleZeroTrust"
    by blast
  from multi_valued_facets_need_all_selected
         [OF h, of utcPlatform initialState sampleDevIntent "''Tech''" "''Finance''"] d
  have 2: "\<not> passes utcPlatform (initialState\<lparr>st_industries := [''Tech'', ''Finance'']\<rparr>)
             sampleDevIntent"
    by blast
  from h 1 d 2 show ?thesis by (intro conjI)
qed

lemma computeYear_parsed:
  "release_date p = Some s \<Longrightarrow> dateParse pf s = Some t \<Longrightarrow>
   computeYear pf (release_date p) = showInt (fullYear pf t)"
  by (simp add: computeYear_def newDate_def fullYearString_def)

text \<open>
  C4. For a non-empty selection \<open>sel\<close> on one of the single-valued dimensions (content
  type, funnel stage, year), an item passes the filter under that selection iff its value
  is one of the selected values and the item passes the filter with that dimension's
  selection cleared. The value is \<open>content_type\<close>, \<open>funnel_stage\<close> and, for an item whose
  release date parses, the full year of that date written in decimal digits, which is
  what \<open>computeYear\<close> derives from it. With the selection cleared, the filter does not
  look at the value.
\<close>

theorem single_valued_facets_need_one_selected:
  assumes "sel \<noteq> []"
  shows "(passes pf (st\<lparr>st_ctype := sel\<rparr>) p \<longleftrightarrow>
            content_type p \<in> Some ` set sel \<and> passes pf (st\<lparr>st_ctype := []\<rparr>) p)
       \<and> (passes pf (st\<lparr>st_stage := sel\<rparr>) p \<longleftrightarrow>
            funnel_stage p \<in> Some ` set sel \<and> passes pf (st\<lparr>st_stage := []\<rparr>) p)
       \<and> (release_date p = Some s \<and> dateParse pf s = Some t \<longrightarrow>
            computeYear pf (release_date p) = showInt (fullYear pf t))
       \<and> (release_date p = Some s \<and> dateParse pf s = Some t \<longrightarrow>
            (passes pf (st\<lparr>st_year := sel\<rparr>) p \<longleftrightarrow>
               showInt (fullYear pf t) \<in> set sel \<and> passes pf (st\<lparr>st_year := []\<rparr>) p))
       \<and> passes pf (st\<lparr>st_ctype := []\<rparr>) (p\<lparr>content_type := x\<rparr>)
           = passes pf (st\<lparr>st_ctype := []\<rparr>) p
       \<and> passes pf (st\<lparr>st_stage := []\<rparr>) (p\<lparr>funnel_stage := x\<rparr>)
           = passes pf (st\<lparr>st_stage := []\<rparr>) p
       \<and> passes pf (st\<lparr>st_year := []\<rparr>) (p\<lparr>release_date := x\<rparr>)
           = passes pf (st\<lparr>st_year := []\<rparr>) p"
proof -
  have c: "passes pf (st\<lparr>st_ctype := sel\<rparr>) p \<longleftrightarrow>
            content_type p \<in> Some ` set sel \<and> passes pf (st\<lparr>st_ctype := []\<rparr>) p"
    using assms by (simp add: passes_iff) blast
  have g: "passes pf (st\<lparr>st_stage := sel\<rparr>) p \<longleftrightarrow>
            funnel_stage p \<in> Some ` set sel \<and> passes pf (st\<lparr>st_stage := []\<rparr>) p"
    using assms by (simp add: passes_iff) blast
  have d: "release_date p = Some s \<and> dateParse pf s = Some t \<longrightarrow>
            computeYear pf (release_date p) = showInt (fullYear pf t)"
    using computeYear_parsed [of p s pf t] by blast
  have y: "release_date p = Some s \<and> dateParse pf s = Some t \<longrightarrow>
            (passes pf (st\<lparr>st_year := sel\<rparr>) p \<longleftrightarrow>
               showInt (fullYear pf t) \<in> set sel \<and> passes pf (st\<lparr>st_year := []\<rparr>) p)"
  proof
    assume a: "release_date p = Some s \<and> dateParse pf s = Some t"
    then have "computeYear pf (release_date p) = showInt (fullYear pf t)"
      using d by blast
    then show "passes pf (st\<lparr>st_year := sel\<rparr>) p \<longleftrightarrow>
               showInt (fullYear pf t) \<in> set sel \<and> passes pf (st\<lparr>st_year := []\<rparr>) p"
      using assms by (simp add: passes_iff) blast
  qed
  have c0: "passes pf (st\<lparr>st_ctype := []\<rparr>) (p\<lparr>content_type := x\<rparr>)
           = passes pf (st\<lparr>st_ctype := []\<rparr>) p"
    by (simp add: passes_iff fullTextMatch_def matchFields_def)
  have s0: "passes pf (st\<lparr>st_stage := []\<rparr>) (p\<lparr>funnel_stage := x\<rparr>)
           = passes pf (st\<lparr>st_stage := []\<rparr>) p"
    by (simp add: passes_iff fullTextMatch_def matchFields_def)
  have y0: "passes pf (st\<lparr>st_year := []\<rparr>) (p\<lparr>release_date := x\<rparr>)
           = passes pf (st\<lparr>st_year := []\<rparr>) p"
    by (simp add: passes_iff fullTextMatch_def matchFields_def)
  from c g d y c0 s0 y0 show ?thesis by (intro conjI)
qed

theorem single_valued_facets_need_one_selected_witness:
  "[''video'', ''slide''] \<noteq> []
   \<and> passes utcPlatform (initialState\<lparr>st_ctype := [''video'', ''slide'']\<rparr>) sampleAiGovernance
   \<and> \<not> passes utcPlatform (initialState\<lparr>st_ctype := [''video'', ''slide'']\<rparr>) sampleDevIntent
   \<and> [''Decision'', ''Retention''] \<noteq> []
   \<and> passes utcPlatform (initialState\<lparr>st_stage := [''Decision'', ''Retention'']\<rparr>)
        sampleDevIntent
   \<and> \<not> passes utcPlatform (initialState\<lparr>st_stage := [''Decision'', ''Retention'']\<rparr>)
        sampleAiGovernance
   \<and> [''2025''] \<noteq> []
   \<and> dateParse utcPlatform ''2025-08-01'' = Some 1754006400000
   \<and> showInt (fullYear utcPlatform 1754006400000) = ''2025''
   \<and> passes utcPlatform (initialState\<lparr>st_year := [''2025'']\<rparr>) sampleAiGovernance
   \<and> dateParse utcPlatform ''2024-12-31'' = Some 1735603200000
   \<and> showInt (fullYear utcPlatform 1735603200000) = ''2024''
   \<and> computeYear utcPlatform (release_date (sampleAiGovernance\<lparr>release_date := Some ''2024-12-31''\<rparr>))
       = ''2024''
   \<and> \<not> passes utcPlatform (initialState\<lparr>st_year := [''2025'']\<rparr>)
          (sampleAiGovernance\<lparr>release_date := Some ''2024-12-31''\<rparr>)
   \<and> [''2023'', ''2024''] \<noteq> []
   \<and> passes utcPlatform (initialState\<lparr>st_year := [''2023'', ''2024'']\<rparr>)
        (sampleAiGovernance\<lparr>release_date := Some ''2024-12-31''\<rparr>)"
proof -
  let ?old = "sampleAiGovernance\<lparr>release_date := Some ''2024-12-31''\<rparr>"
  have h: "[''video'', ''slide''] \<noteq> []" by simp
  have h1: "[''Decision'', ''Retention''] \<noteq> []" by simp
  have h2: "[''2025''] \<noteq> []" by simp
  have h3: "[''2023'', ''2024''] \<noteq> []" by simp
  have a: "content_type sampleAiGovernance \<in> Some ` set [''video'', ''slide'']
           \<and> passes utcPlatform (initialState\<lparr>st_ctype := []\<rparr>) sampleAiGovernance"
    by code_simp
  have b: "content_type sampleDevIntent \<notin> Some ` set [''video'', ''slide'']"
    by code_simp
  have e: "funnel_stage sampleDevIntent \<in> Some ` set [''Decision'', ''Retention'']
           \<and> passes utcPlatform (initialState\<lparr>st_stage := []\<rparr>) sampleDevIntent"
    by code_simp
  have f: "funnel_stage sampleAiGovernance \<notin> Some ` set [''Decision'', ''Retention'']"
    by code_simp
  have r25: "release_date sampleAiGovernance = Some ''2025-08-01''" by code_simp
  have d25: "dateParse utcPlatform ''2025-08-01'' = Some 1754006400000" by code_simp
  have y25: "showInt (fullYear utcPlatform 1754006400000) = ''2025''" by code_simp
  have p25: "passes utcPlatform (initialState\<lparr>st_year := []\<rparr>) sampleAiGovernance"
    by code_simp
  have r24: "release_date ?old = Some ''2024-12-31''" by code_simp
  have d24: "dateParse utcPlatform ''2024-12-31'' = Some 1735603200000" by code_simp
  have y24: "showInt (fullYear utcPlatform 1735603200000) = ''2024''" by code_simp
  have p24: "passes utcPlatform (initialState\<lparr>st_year := []\<rparr>) ?old" by code_simp
  from single_valued_facets_need_one_selected
         [OF h, where pf = utcPlatform and st = initialState and p = sampleAiGovernance] a
  have 1: "passes utcPlatform (initialState\<lparr>st_ctype := [''video'', ''slide'']\<rparr>)
             sampleAiGovernance"
    by blast
  from single_valued_facets_need_one_selected
         [OF h, where pf = utcPlatform and st = initialState and p = sampleDevIntent] b
  have 2: "\<not> passes utcPlatform (initialState\<lparr>st_ctype := [''video'', ''slide'']\<rparr>)
             sampleDevIntent"
    by blast
  from single_valued_facets_need_one_selected
         [OF h1, where pf = utcPlatform and st = initialState and p = sampleDevIntent] e
  have 3: "passes utcPlatform (initialState\<lparr>st_stage := [''Decision'', ''Retention'']\<rparr>)
             sampleDevIntent"
    by blast
  from single_valued_facets_need_one_selected
         [OF h1, where pf = utcPlatform and st = initialState and p = sampleAiGovernance] f
  have 4: "\<not> passes utcPlatform (initialState\<lparr>st_stage := [''Decision'', ''Retention'']\<rparr>)
             sampleAiGovernance"
    by blast
  from single_valued_facets_need_one_selected
         [OF h2, where pf = utcPlatform and st = initialState and p = sampleAiGovernance
            and s = "''2025-08-01''" and t = 1754006400000] r25 d25 y25 p25
  have 5: "passes utcPlatform (initialState\<lparr>st_year := [''2025'']\<rparr>) sampleAiGovernance"
    by simp
  from single_valued_facets_need_one_selected
         [OF h2, where pf = utcPlatform and st = initialState and p = ?old
            and s = "''2024-12-31''" and t = 1735603200000] r24 d24 y24
  have 6: "computeYear utcPlatform (release_date ?old) = ''2024''"
    and 7: "\<not> passes utcPlatform (initialState\<lparr>st_year := [''2025'']\<rparr>) ?old"
    by simp_all
  from single_valued_facets_need_one_selected
         [OF h3, where pf = utcPlatform and st = initialState and p = ?old
            and s = "''2024-12-31''" and t = 1735603200000] r24 d24 y24 p24
  have 8: "passes utcPlatform (initialState\<lparr>st_year := [''2023'', ''2024'']\<rparr>) ?old"
    by simp
  from h 1 2 h1 3 4 h2 d25 y25 5 d24 y24 6 7 h3 8 show ?thesis by (intro conjI)
qed

subsection \<open>Free-text match\<close>

lemma toLowerCase_joinStr:
  "toLowerCase (joinStr sep fs) = joinStr (toLowerCase sep) (map toLowerCase fs)"
  by (induction sep fs rule: joinStr.induct) (simp_all add: toLowerCase_def)

lemma sublist_joinStr: "f \<in> set fs \<Longrightarrow> sublist f (joinStr sep fs)"
proof (induction sep fs rule: joinStr.induct)
  case (1 sep)
  then show ?case by simp
next
  case (2 sep x)
  then show ?case by simp
next
  case (3 sep x y ys)
  show ?case
  proof (cases "f = x")
    case True
    then show ?thesis by simp
  next
    case False
    with 3 have "sublist f (joinStr sep (y # ys))" by simp
    then have "sublist f ((x @ sep) @ joinStr sep (y # ys))"
      by (simp only: sublist_append) blast
    then show ?thesis by simp
  qed
qed

lemma includesI_in_field:
  assumes "f \<in> set fs" and "includesI f n"
  shows "includesI (joinStr sep fs) n"
proof -
  from assms(1) have "toLowerCase f \<in> set (map toLowerCase fs)" by simp
  then have "sublist (toLowerCase f) (joinStr (toLowerCase sep) (map toLowerCase fs))"
    by (rule sublist_joinStr)
  moreover from assms(2) have "sublist (toLowerCase n) (toLowerCase f)"
    by (simp add: includesI_def strIncludes_def)
  ultimately show ?thesis
    unfolding includesI_def strIncludes_def toLowerCase_joinStr
    by (rule sublist_order.order_trans[rotated])
qed

lemma includesI_iff:
  "includesI h n \<longleftrightarrow> (\<exists>ps ss. toLowerCase h = ps @ toLowerCase n @ ss)"
  by (simp add: includesI_def strIncludes_def sublist_def)

lemma trim_Nil: "trim [] = []"
  by (simp add: trim_def)

text \<open>
  C5. The free-text stage of the filter passes an item iff the trimmed term is empty or
  the trimmed term matches, as a case-insensitive substring (both sides in lower case),
  the item's title, summary, topics, tags, personas and industries joined into one string,
  a missing field counting as empty; an item passes the whole filter iff it passes this
  stage and passes the filter with the term cleared. A match inside the title, inside the
  summary or inside any single label is enough for the stage to pass.
\<close>

theorem free_text_stage_matches_joined_fields:
  "(fullTextMatch p (trim qs) \<longleftrightarrow>
      trim qs = []
      \<or> includesI
           (joinStr fieldSep
              ([strOr (title p), strOr (summary p)] @ arrOr (topics p) @ arrOr (tags p)
                 @ arrOr (personas p) @ arrOr (industries p)))
           (trim qs))
   \<and> (includesI h n \<longleftrightarrow> (\<exists>ps ss. toLowerCase h = ps @ toLowerCase n @ ss))
   \<and> (passes pf (st\<lparr>st_q := qs\<rparr>) p \<longleftrightarrow>
        fullTextMatch p (trim qs) \<and> passes pf (st\<lparr>st_q := []\<rparr>) p)
   \<and> (includesI (strOr (title p)) (trim qs) \<or> includesI (strOr (summary p)) (trim qs)
        \<or> (\<exists>f \<in> set (arrOr (topics p)) \<union> set (arrOr (tags p))
                 \<union> set (arrOr (personas p)) \<union> set (arrOr (industries p)).
              includesI f (trim qs))
      \<longrightarrow> fullTextMatch p (trim qs))"
proof -
  have 1: "fullTextMatch p (trim qs) \<longleftrightarrow>
      trim qs = []
      \<or> includesI
           (joinStr fieldSep
              ([strOr (title p), strOr (summary p)] @ arrOr (topics p) @ arrOr (tags p)
                 @ arrOr (personas p) @ arrOr (industries p)))
           (trim qs)"
    by (simp add: fullTextMatch_def matchFields_def)
  have 2: "passes pf (st\<lparr>st_q := qs\<rparr>) p \<longleftrightarrow>
        fullTextMatch p (trim qs) \<and> passes pf (st\<lparr>st_q := []\<rparr>) p"
    by (simp add: passes_iff trim_Nil) (simp add: fullTextMatch_def)
  have 3: "fullTextMatch p (trim qs)" if "f \<in> set (matchFields p)" "includesI f (trim qs)" for f
    using includesI_in_field [OF that] by (simp add: fullTextMatch_def)
  have 4: "includesI (strOr (title p)) (trim qs) \<or> includesI (strOr (summary p)) (trim qs)
        \<or> (\<exists>f \<in> set (arrOr (topics p)) \<union> set (arrOr (tags p))
                 \<union> set (arrOr (personas p)) \<union> set (arrOr (industries p)).
              includesI f (trim qs))
      \<longrightarrow> fullTextMatch p (trim qs)"
  proof
    assume "includesI (strOr (title p)) (trim qs) \<or> includesI (strOr (summary p)) (trim qs)
        \<or> (\<exists>f \<in> set (arrOr (topics p)) \<union> set (arrOr (tags p))
                 \<union> set (arrOr (personas p)) \<union> set (arrOr (industries p)).
              includesI f (trim qs))"
    then obtain f where "f \<in> set (matchFields p)" "includesI f (trim qs)"
      unfolding matchFields_def by auto
    then show "fullTextMatch p (trim qs)" by (rule 3)
  qed
  from 1 includesI_iff [of h n] 2 4 show ?thesis by (intro conjI)
qed

theorem free_text_stage_matches_joined_fields_witness:
  "includesI ''Identity'' (trim ''  IDENTITY  '')
   \<and> fullTextMatch sampleZeroTrust (trim ''  IDENTITY  '')
   \<and> passes utcPlatform (initialState\<lparr>st_q := ''  IDENTITY  ''\<rparr>) sampleZeroTrust"
proof -
  have i: "includesI ''Identity'' (trim ''  IDENTITY  '')" by code_simp
  have t: "''Identity'' \<in> set (arrOr (topics sampleZeroTrust))" by code_simp
  have e: "passes utcPlatform (initialState\<lparr>st_q := []\<rparr>) sampleZeroTrust" by code_simp
  note inst = free_text_stage_matches_joined_fields
               [of sampleZeroTrust "''  IDENTITY  ''" "''Identity''" "''IDENTITY''"
                   utcPlatform initialState]
  from inst i t have m: "fullTextMatch sampleZeroTrust (trim ''  IDENTITY  '')" by blast
  from inst m e
  have "passes utcPlatform (initialState\<lparr>st_q := ''  IDENTITY  ''\<rparr>) sampleZeroTrust"
    by blast
  with i m show ?thesis by (intro conjI)
qed

subsection \<open>Year derivation\<close>

lemma computeYear_unparseable:
  "dateParse pf s = None \<Longrightarrow> computeYear pf (Some s) = ''NaN''"
  by (simp add: computeYear_def newDate_def fullYearString_def)

lemma computeYear_absent: "computeYear pf None = ''NaN''"
  by (simp add: computeYear_def newDate_def fullYearString_def)

lemma unparseable_passes_year_NaN:
  assumes "dateParse pf s = None"
  shows "passes pf (st\<lparr>st_year := [''NaN'']\<rparr>) (p\<lparr>release_date := Some s\<rparr>)
           = passes pf (st\<lparr>st_year := []\<rparr>) (p\<lparr>release_date := Some s\<rparr>)"
  by (simp add: passes_iff computeYear_unparseable [OF assms])

text \<open>
  C2 says that an unparseable \<open>release_date\<close> gives the empty string as its year, so that
  the item fails the year filter under every non-empty selection. The code gives the
  string \<open>NaN\<close>: the item is tallied under the year label \<open>NaN\<close> and passes the year filter
  when that label is selected. Evaluated for the first sample item with the release date
  \<open>TBD\<close>.
\<close>

theorem unparseable_date_year_is_NaN:
  "dateParse utcPlatform ''TBD'' = None
   \<and> computeYear utcPlatform (Some ''TBD'') = ''NaN''
   \<and> computeYear utcPlatform (Some ''TBD'') \<noteq> []
   \<and> f_year (facetsOf utcPlatform [sampleZeroTrust\<lparr>release_date := Some ''TBD''\<rparr>]) ''NaN''
       = Some (Count 1)
   \<and> passes utcPlatform (initialState\<lparr>st_year := [''NaN'']\<rparr>)
        (sampleZeroTrust\<lparr>release_date := Some ''TBD''\<rparr>)"
  by code_simp

subsection \<open>Tallies\<close>

text \<open>
  For labels that are no property name of \<^verbatim>\<open>Object.prototype\<close> the tally is the number
  of occurrences, its keys are the labels that occur, and its values sum to the length of
  the list; so the content-type tally of a filtered list sums to the size of the list.
\<close>

lemma tallyStep_plain:
  assumes k: "k \<noteq> ''__proto__''" "k \<notin> set objectPrototypeMethods"
    and m: "m k = None \<or> (\<exists>n. m k = Some (Count n))"
  shows "tallyStep m k = m(k \<mapsto> Count (case m k of Some (Count n) \<Rightarrow> n + 1 | _ \<Rightarrow> 1))"
  using k m by (auto simp: tallyStep_def arrIncludes_def split: option.splits tally_value.splits)

lemma fold_tally_counts:
  assumes "''__proto__'' \<notin> set arr" and "set arr \<inter> set objectPrototypeMethods = {}"
    and "\<forall>k. m k = None \<or> (\<exists>n. m k = Some (Count (Suc n)))"
  shows "fold (\<lambda>k m. tallyStep m k) arr m k =
           (case m k of
              Some (Count n) \<Rightarrow> Some (Count (n + count_list arr k))
            | _ \<Rightarrow> if k \<in> set arr then Some (Count (count_list arr k)) else None)"
  using assms
proof (induction arr arbitrary: m)
  case Nil
  from Nil.prems(3) [rule_format, of k] show ?case
    by (auto split: option.splits tally_value.splits)
next
  case (Cons a arr)
  let ?m = "tallyStep m a"
  have a: "a \<noteq> ''__proto__''" "a \<notin> set objectPrototypeMethods" using Cons.prems by auto
  have ma: "m a = None \<or> (\<exists>n. m a = Some (Count n))" using Cons.prems(3) by blast
  have step: "?m = m(a \<mapsto> Count (case m a of Some (Count n) \<Rightarrow> n + 1 | _ \<Rightarrow> 1))"
    using a ma by (rule tallyStep_plain [of a m])
  have inv: "\<forall>k. ?m k = None \<or> (\<exists>n. ?m k = Some (Count (Suc n)))"
    using Cons.prems(3) unfolding step
    by (auto split: option.splits tally_value.splits)
  have "fold (\<lambda>k m. tallyStep m k) (a # arr) m k = fold (\<lambda>k m. tallyStep m k) arr ?m k"
    by simp
  also have "\<dots> = (case ?m k of
              Some (Count n) \<Rightarrow> Some (Count (n + count_list arr k))
            | _ \<Rightarrow> if k \<in> set arr then Some (Count (count_list arr k)) else None)"
    using Cons.prems(1,2) by (intro Cons.IH inv) auto
  also have "\<dots> = (case m k of
              Some (Count n) \<Rightarrow> Some (Count (n + count_list (a # arr) k))
            | _ \<Rightarrow> if k \<in> set (a # arr) then Some (Count (count_list (a # arr) k)) else None)"
    using Cons.prems(3) [rule_format, of k] unfolding step
    by (auto split: option.splits tally_value.splits simp: count_list_0_iff)
  finally show ?case .
qed

lemma tally_counts_occurrences:
  assumes "''__proto__'' \<notin> set arr" and "set arr \<inter> set objectPrototypeMethods = {}"
  shows "tally arr k = (if k \<in> set arr then Some (Count (count_list arr k)) else None)"
  unfolding tally_def using fold_tally_counts [OF assms, of Map.empty k] by simp

lemma tally_sum_is_length:
  assumes "''__proto__'' \<notin> set arr" and "set arr \<inter> set objectPrototypeMethods = {}"
  shows "dom (tally arr) = set arr"
    and "(\<Sum>k \<in> dom (tally arr). case tally arr k of Some (Count n) \<Rightarrow> n | _ \<Rightarrow> 0) = length arr"
proof -
  show d: "dom (tally arr) = set arr"
    by (auto simp: tally_counts_occurrences [OF assms] dom_def)
  have "(\<Sum>k \<in> set arr. case tally arr k of Some (Count n) \<Rightarrow> n | _ \<Rightarrow> 0)
          = (\<Sum>k \<in> set arr. count_list arr k)"
    by (rule sum.cong) (simp_all add: tally_counts_occurrences [OF assms])
  also have "\<dots> = length arr" by (rule sum_count_set) simp_all
  finally show "(\<Sum>k \<in> dom (tally arr). case tally arr k of Some (Count n) \<Rightarrow> n | _ \<Rightarrow> 0) = length arr"
    by (simp add: d)
qed

lemma type_tally_sum_is_size:
  assumes "''__proto__'' \<notin> (\<lambda>p. strOrDefault (content_type p) ''content'') ` set flt"
    and "(\<lambda>p. strOrDefault (content_type p) ''content'') ` set flt
           \<inter> set objectPrototypeMethods = {}"
  shows "(\<Sum>k \<in> dom (f_type (facetsOf pf flt)).
            case f_type (facetsOf pf flt) k of Some (Count n) \<Rightarrow> n | _ \<Rightarrow> 0) = length flt"
  using tally_sum_is_length(2) [of "map (\<lambda>p. strOrDefault (content_type p) ''content'') flt"]
    assms
  by (simp add: facetsOf_def Let_def)

text \<open>
  C7 says that every tally maps each label to the number of its occurrences among the
  filtered items. For a label that is a method name of \<^verbatim>\<open>Object.prototype\<close> the code
  stores a string instead of a count, and for the label \<^verbatim>\<open>__proto__\<close> it stores
  nothing. Evaluated for the first sample item with the tags \<open>Security\<close> and
  \<open>constructor\<close>.
\<close>

theorem tally_inherited_key_is_no_count:
  "tally [''constructor''] ''constructor'' = Some NonNumeric
   \<and> tally [''constructor''] ''constructor'' \<noteq> Some (Count 1)
   \<and> tally [''__proto__''] ''__proto__'' = None
   \<and> f_tags (facetsOf utcPlatform
               (filtered utcPlatform initialState
                  [sampleZeroTrust\<lparr>tags := Some [''Security'', ''constructor'']\<rparr>]))
        ''constructor'' = Some NonNumeric
   \<and> f_tags (facetsOf utcPlatform
               (filtered utcPlatform initialState
                  [sampleZeroTrust\<lparr>tags := Some [''Security'', ''constructor'']\<rparr>]))
        ''Security'' = Some (Count 1)"
  by code_simp

subsection \<open>Catalog loader\<close>

lemma DATA_URL_truthy: "DATA_URL \<noteq> []"
  by (simp add: DATA_URL_def)

lemma run_fallback:
  "fetchItems out = Inl e \<Longrightarrow> run False out = fallbackState"
  by (simp add: run_def initialLoad_def fallbackState_def)

lemma run_loaded:
  "fetchItems out = Inr (Array xs) \<Longrightarrow> run False out = loadedState xs"
  by (simp add: run_def initialLoad_def loadedState_def)

lemma run_loading_ends: "ls_loading (run False out) = False"
  by (simp add: run_def Let_def)

lemma fetchItems_array:
  "fetchItems (Resolved (Response True code (Some (Array xs)))) = Inr (Array xs)"
  by (simp add: fetchItems_def DATA_URL_truthy)

lemma fetchItems_object:
  "fetchItems (Resolved (Response True code (Some (Object kvs)))) =
     Inr (case map_of kvs ''items'' of
            None \<Rightarrow> Array []
          | Some v \<Rightarrow> if truthy v then v else Array [])"
  by (simp add: fetchItems_def DATA_URL_truthy split: option.splits)

text \<open>
  The shapes for which the loader does what C9 says: an array body and an object whose
  \<open>items\<close> is an array are taken as the item list; a boolean, a number, a string and an
  object whose \<open>items\<close> is absent or falsy give the empty list; a rejected fetch, a
  non-success status and a body that does not parse end in the fallback state, with the
  built-in catalog of three items and the warning. Loading ends in every case.
\<close>

lemma loader_supported_shapes:
  "run False (Resolved (Response True code (Some (Array xs)))) = loadedState xs
   \<and> (map_of kvs ''items'' = Some (Array xs) \<longrightarrow>
        run False (Resolved (Response True code (Some (Object kvs)))) = loadedState xs)
   \<and> ((case map_of kvs ''items'' of None \<Rightarrow> True | Some v \<Rightarrow> \<not> truthy v) \<longrightarrow>
        run False (Resolved (Response True code (Some (Object kvs)))) = loadedState [])
   \<and> run False (Resolved (Response True code (Some (Boolean b)))) = loadedState []
   \<and> run False (Resolved (Response True code (Some (Number r)))) = loadedState []
   \<and> run False (Resolved (Response True code (Some (Str t)))) = loadedState []
   \<and> run False Rejected = fallbackState
   \<and> run False (Resolved (Response False code body)) = fallbackState
   \<and> run False (Resolved (Response True code None)) = fallbackState
   \<and> ls_items fallbackState = Array SAMPLE_items
   \<and> length SAMPLE_items = 3
   \<and> ls_error fallbackState = ''Using fallback sample data.''
   \<and> ls_loading (run False out) = False"
proof -
  have 1: "run False (Resolved (Response True code (Some (Array xs)))) = loadedState xs"
    by (rule run_loaded) (rule fetchItems_array)
  have 2: "map_of kvs ''items'' = Some (Array xs) \<longrightarrow>
        run False (Resolved (Response True code (Some (Object kvs)))) = loadedState xs"
    by (auto intro!: run_loaded simp: fetchItems_object)
  have 3: "(case map_of kvs ''items'' of None \<Rightarrow> True | Some v \<Rightarrow> \<not> truthy v) \<longrightarrow>
        run False (Resolved (Response True code (Some (Object kvs)))) = loadedState []"
    by (auto intro!: run_loaded simp: fetchItems_object split: option.splits)
  have 4: "run False (Resolved (Response True code (Some (Boolean b)))) = loadedState []"
    by (rule run_loaded) (simp add: fetchItems_def DATA_URL_truthy)
  have 5: "run False (Resolved (Response True code (Some (Number r)))) = loadedState []"
    by (rule run_loaded) (simp add: fetchItems_def DATA_URL_truthy)
  have 6: "run False (Resolved (Response True code (Some (Str t)))) = loadedState []"
    by (rule run_loaded) (simp add: fetchItems_def DATA_URL_truthy)
  have 8: "run False Rejected = fallbackState"
    by (rule run_fallback [where e = NetworkError]) (simp add: fetchItems_def DATA_URL_truthy)
  have 9: "run False (Resolved (Response False code body)) = fallbackState"
    by (rule run_fallback [where e = "HttpError code"])
       (simp add: fetchItems_def DATA_URL_truthy)
  have 10: "run False (Resolved (Response True code None)) = fallbackState"
    by (rule run_fallback [where e = SyntaxError]) (simp add: fetchItems_def DATA_URL_truthy)
  have 11: "ls_items fallbackState = Array SAMPLE_items"
    and 12: "length SAMPLE_items = 3"
    and 13: "ls_error fallbackState = ''Using fallback sample data.''"
    by (simp_all add: fallbackState_def SAMPLE_items_def)
  from 1 2 3 4 5 6 8 9 10 11 12 13 run_loading_ends [of out]
  show ?thesis by (intro conjI)
qed

lemma loader_supported_shapes_example:
  "map_of [(''total'', Number 1), (''items'', Array [sampleDevIntent])] ''items''
     = Some (Array [sampleDevIntent])
   \<and> run False (Resolved (Response True 200
        (Some (Object [(''total'', Number 1), (''items'', Array [sampleDevIntent])]))))
       = loadedState [sampleDevIntent]
   \<and> run False (Resolved (Response True 200 (Some (Object [(''items'', Null)]))))
       = loadedState []
   \<and> run False (Resolved (Response False 404 None)) = fallbackState"
proof -
  have a: "map_of [(''total'', Number 1), (''items'', Array [sampleDevIntent])] ''items''
     = Some (Array [sampleDevIntent])"
    by simp
  have b: "(case map_of [(''items'', Null)] ''items'' of
              None \<Rightarrow> True | Some v \<Rightarrow> \<not> truthy v)"
    by simp
  from loader_supported_shapes
         [of 200 "[sampleDevIntent]"
             "[(''total'', Number 1), (''items'', Array [sampleDevIntent])]"] a
  have 1: "run False (Resolved (Response True 200
        (Some (Object [(''total'', Number 1), (''items'', Array [sampleDevIntent])]))))
       = loadedState [sampleDevIntent]"
    by blast
  from loader_supported_shapes [of 200 "[]" "[(''items'', Null)]"] b
  have 2: "run False (Resolved (Response True 200 (Some (Object [(''items'', Null)]))))
       = loadedState []"
    by blast
  from loader_supported_shapes [of 404 "[]" "[]" _ _ _ None]
  have 3: "run False (Resolved (Response False 404 None)) = fallbackState"
    by blast
  from a 1 2 3 show ?thesis by (intro conjI)
qed

text \<open>
  C9 says that a success response whose JSON body is neither an array nor an object with
  an \<open>items\<close> array yields the empty list, and that the loaded state is never left in
  error. The expression \<^verbatim>\<open>json.items || []\<close> misses two shapes. An object whose
  \<open>items\<close> is truthy but no array is stored as the item list as it is: the state then is
  neither a list of items nor the fallback, and no warning is set. The body \<open>null\<close>
  throws on reading \<open>items\<close> and ends in the fallback catalog with the warning, unlike
  the other shapes without \<open>items\<close>, such as \<open>true\<close>, which give the empty list.
  Evaluated for a response with status 200.
\<close>

theorem loader_other_shapes_not_empty_list:
  "ls_items (run False (Resolved (Response True 200 (Some (Object [(''items'', Number 5)])))))
     = Number 5
   \<and> ls_error (run False (Resolved (Response True 200 (Some (Object [(''items'', Number 5)])))))
       = []
   \<and> run False (Resolved (Response True 200 (Some (Object [(''items'', Number 5)]))))
       \<noteq> loadedState []
   \<and> run False (Resolved (Response True 200 (Some (Object [(''items'', Number 5)]))))
       \<noteq> fallbackState
   \<and> run False (Resolved (Response True 200 (Some Null))) = fallbackState
   \<and> run False (Resolved (Response True 200 (Some Null))) \<noteq> loadedState []
   \<and> run False (Resolved (Response True 200 (Some (Boolean True)))) = loadedState []"
  by (simp add: run_def fetchItems_def DATA_URL_truthy initialLoad_def fallbackState_def
        loadedState_def SAMPLE_items_def)

subsection \<open>Sorting\<close>

lemma set_insertBy: "set (insertBy cmp x ys) = insert x (set ys)"
  by (induction ys) auto

lemma mset_insertBy: "mset (insertBy cmp x ys) = add_mset x (mset ys)"
  by (induction ys) auto

lemma mset_arraySort: "mset (arraySort cmp xs) = mset xs"
  unfolding arraySort_def by (induction xs) (auto simp: mset_insertBy)

lemma set_arraySort: "set (arraySort cmp xs) = set xs"
  using mset_arraySort [of cmp xs] by (metis set_mset_mset)

lemma sorted_wrt_insertBy:
  assumes tr: "\<And>a b c. \<lbrakk>a \<in> A; b \<in> A; c \<in> A; le a b; le b c\<rbrakk> \<Longrightarrow> le a c"
    and pos: "\<And>a b. \<lbrakk>a \<in> A; b \<in> A\<rbrakk> \<Longrightarrow> positive (cmp a b) \<longleftrightarrow> \<not> le a b"
    and tot: "\<And>a b. \<lbrakk>a \<in> A; b \<in> A; \<not> le a b\<rbrakk> \<Longrightarrow> le b a"
    and x: "x \<in> A" and ys: "set ys \<subseteq> A" and srt: "sorted_wrt le ys"
  shows "sorted_wrt le (insertBy cmp x ys)"
  using ys srt
proof (induction ys)
  case Nil
  then show ?case by simp
next
  case (Cons y ys)
  then have yA: "y \<in> A" and ysA: "set ys \<subseteq> A" by auto
  show ?case
  proof (cases "positive (cmp x y)")
    case True
    then have "le y x" using pos [OF x yA] tot [OF x yA] by blast
    moreover have "sorted_wrt le (insertBy cmp x ys)" using Cons ysA by simp
    ultimately show ?thesis using True Cons.prems by (auto simp: set_insertBy)
  next
    case False
    then have xy: "le x y" using pos [OF x yA] by blast
    have "le x z" if "z \<in> set ys" for z
    proof -
      from that Cons.prems have "le y z" and "z \<in> A" by auto
      with xy show ?thesis using tr [OF x yA] by blast
    qed
    with xy False Cons.prems show ?thesis by auto
  qed
qed

lemma sorted_wrt_arraySort:
  assumes tr: "\<And>a b c. \<lbrakk>a \<in> A; b \<in> A; c \<in> A; le a b; le b c\<rbrakk> \<Longrightarrow> le a c"
    and pos: "\<And>a b. \<lbrakk>a \<in> A; b \<in> A\<rbrakk> \<Longrightarrow> positive (cmp a b) \<longleftrightarrow> \<not> le a b"
    and tot: "\<And>a b. \<lbrakk>a \<in> A; b \<in> A; \<not> le a b\<rbrakk> \<Longrightarrow> le b a"
    and xs: "set xs \<subseteq> A"
  shows "sorted_wrt le (arraySort cmp xs)"
  using xs
proof (induction xs)
  case Nil
  then show ?case by (simp add: arraySort_def)
next
  case (Cons x xs)
  then have x: "x \<in> A" and xsA: "set xs \<subseteq> A" by auto
  have s: "set (arraySort cmp xs) \<subseteq> A" using xsA by (simp add: set_arraySort)
  have "sorted_wrt le (insertBy cmp x (arraySort cmp xs))"
    by (rule sorted_wrt_insertBy [where A = A, OF tr pos tot x s]) (use Cons xsA in auto)
  then show ?case by (simp add: arraySort_def)
qed


lemma dateDiff_valid:
  "newDate pf (release_date a) = Some ta \<Longrightarrow> newDate pf (release_date b) = Some tb \<Longrightarrow>
   dateDiff pf a b = Num (rat_of_int ta - rat_of_int tb)"
  by (simp add: dateDiff_def getTime_def)

lemma positive_Num: "positive (Num r) \<longleftrightarrow> 0 < r"
  by (simp add: positive_def)



lemma mset_sortedItems: "mset (sortedItems pf st flt) = mset flt"
  by (simp add: sortedItems_def mset_arraySort)

lemma valid_dates:
  assumes "list_all (\<lambda>p. newDate pf (release_date p) \<noteq> None) flt" and "a \<in> set flt"
  shows "\<exists>t. newDate pf (release_date a) = Some t"
  using assms by (auto simp: list_all_iff)

lemma shortest_sorted:
  assumes valid: "list_all (\<lambda>p. newDate pf (release_date p) \<noteq> None) flt"
  shows "sorted_wrt
           (\<lambda>a b. \<exists>ta tb. newDate pf (release_date a) = Some ta
                 \<and> newDate pf (release_date b) = Some tb
                 \<and> (numOr0 (read_time_min a) < numOr0 (read_time_min b)
                      \<or> numOr0 (read_time_min a) = numOr0 (read_time_min b) \<and> tb \<le> ta))
           (sortedItems pf (st\<lparr>st_sort := ''shortest''\<rparr>) flt)"
proof -
  define le where "le = (\<lambda>(a::item) (b::item). \<exists>ta tb. newDate pf (release_date a) = Some ta
                 \<and> newDate pf (release_date b) = Some tb
                 \<and> (numOr0 (read_time_min a) < numOr0 (read_time_min b)
                      \<or> numOr0 (read_time_min a) = numOr0 (read_time_min b) \<and> tb \<le> ta))"
  define cmp where "cmp = (\<lambda>(a::item) (b::item).
     jsOr (Num (numOr0 (read_time_min a) - numOr0 (read_time_min b))) (dateDiff pf b a))"
  have tr: "le a c" if "le a b" "le b c" for a b c
    using that unfolding le_def by force
  have pos: "positive (cmp a b) \<longleftrightarrow> \<not> le a b" if "a \<in> set flt" "b \<in> set flt" for a b
  proof -
    from that valid_dates [OF valid] obtain ta tb
      where t: "newDate pf (release_date a) = Some ta" "newDate pf (release_date b) = Some tb"
      by blast
    show ?thesis
      unfolding cmp_def le_def by (auto simp: t dateDiff_valid positive_Num)
  qed
  have tot: "le b a" if "a \<in> set flt" "b \<in> set flt" "\<not> le a b" for a b
  proof -
    from that valid_dates [OF valid] obtain ta tb
      where t: "newDate pf (release_date a) = Some ta" "newDate pf (release_date b) = Some tb"
      by blast
    show ?thesis using that(3) unfolding le_def by (auto simp: t)
  qed
  have "sorted_wrt le (arraySort cmp flt)"
    by (rule sorted_wrt_arraySort [where A = "set flt"]) (use tr pos tot in blast)+
  then show ?thesis by (simp add: sortedItems_def le_def cmp_def)
qed

lemma longest_sorted:
  assumes valid: "list_all (\<lambda>p. newDate pf (release_date p) \<noteq> None) flt"
  shows "sorted_wrt
           (\<lambda>a b. \<exists>ta tb. newDate pf (release_date a) = Some ta
                 \<and> newDate pf (release_date b) = Some tb
                 \<and> (numOr0 (read_time_min b) < numOr0 (read_time_min a)
                      \<or> numOr0 (read_time_min a) = numOr0 (read_time_min b) \<and> tb \<le> ta))
           (sortedItems pf (st\<lparr>st_sort := ''longest''\<rparr>) flt)"
proof -
  define le where "le = (\<lambda>(a::item) (b::item). \<exists>ta tb. newDate pf (release_date a) = Some ta
                 \<and> newDate pf (release_date b) = Some tb
                 \<and> (numOr0 (read_time_min b) < numOr0 (read_time_min a)
                      \<or> numOr0 (read_time_min a) = numOr0 (read_time_min b) \<and> tb \<le> ta))"
  define cmp where "cmp = (\<lambda>(a::item) (b::item).
     jsOr (Num (numOr0 (read_time_min b) - numOr0 (read_time_min a))) (dateDiff pf b a))"
  have tr: "le a c" if "le a b" "le b c" for a b c
    using that unfolding le_def by force
  have pos: "positive (cmp a b) \<longleftrightarrow> \<not> le a b" if "a \<in> set flt" "b \<in> set flt" for a b
  proof -
    from that valid_dates [OF valid] obtain ta tb
      where t: "newDate pf (release_date a) = Some ta" "newDate pf (release_date b) = Some tb"
      by blast
    show ?thesis
      unfolding cmp_def le_def by (auto simp: t dateDiff_valid positive_Num)
  qed
  have tot: "le b a" if "a \<in> set flt" "b \<in> set flt" "\<not> le a b" for a b
  proof -
    from that valid_dates [OF valid] obtain ta tb
      where t: "newDate pf (release_date a) = Some ta" "newDate pf (release_date b) = Some tb"
      by blast
    show ?thesis using that(3) unfolding le_def by (auto simp: t)
  qed
  have "sorted_wrt le (arraySort cmp flt)"
    by (rule sorted_wrt_arraySort [where A = "set flt"]) (use tr pos tot in blast)+
  then show ?thesis by (simp add: sortedItems_def le_def cmp_def)
qed

text \<open>
  C8, as stated, is false: with an item whose release date does not parse in the list, the
  comparator of \<open>shortest\<close> and \<open>longest\<close> returns \<open>NaN\<close> against it, and two items with
  equal read times can stay in the wrong order. The list of three videos without a
  declared read time, released in January, on an unparseable date and in March, comes
  back as it is in both modes, the January item before the March item.
\<close>

theorem read_time_sort_unparseable_date_counterexample:
  "map slug
     (sortedItems utcPlatform (initialState\<lparr>st_sort := ''shortest''\<rparr>)
        (filtered utcPlatform (initialState\<lparr>st_sort := ''shortest''\<rparr>)
           [releasedOn ''jan'' ''2025-01-15'', releasedOn ''tbd'' ''TBD'',
            releasedOn ''mar'' ''2025-03-15'']))
     = [''jan'', ''tbd'', ''mar'']
   \<and> map slug
     (sortedItems utcPlatform (initialState\<lparr>st_sort := ''longest''\<rparr>)
        (filtered utcPlatform (initialState\<lparr>st_sort := ''longest''\<rparr>)
           [releasedOn ''jan'' ''2025-01-15'', releasedOn ''tbd'' ''TBD'',
            releasedOn ''mar'' ''2025-03-15'']))
     = [''jan'', ''tbd'', ''mar'']
   \<and> read_time_min (releasedOn ''jan'' ''2025-01-15'') = None
   \<and> read_time_min (releasedOn ''mar'' ''2025-03-15'') = None
   \<and> newDate utcPlatform (release_date (releasedOn ''jan'' ''2025-01-15''))
       = Some 1736899200000
   \<and> newDate utcPlatform (release_date (releasedOn ''mar'' ''2025-03-15''))
       = Some 1741996800000
   \<and> (1736899200000 :: int) < 1741996800000
   \<and> newDate utcPlatform (release_date (releasedOn ''tbd'' ''TBD'')) = None"
  by code_simp

text \<open>
  C8, amended. When every release date of the list parses: under the sort mode
  \<open>shortest\<close> the result is ordered by \<open>read_time_min\<close> ascending, under \<open>longest\<close> by
  \<open>read_time_min\<close> descending, a missing read time counting as 0; in both modes items
  with equal read times are ordered by release date descending, the more recent one
  first. The result is a rearrangement of the list.
\<close>

theorem read_time_sort_breaks_ties_by_recency:
  assumes "list_all (\<lambda>p. newDate pf (release_date p) \<noteq> None) flt"
  shows "sorted_wrt
           (\<lambda>a b. \<exists>ta tb. newDate pf (release_date a) = Some ta
                 \<and> newDate pf (release_date b) = Some tb
                 \<and> ((case read_time_min a of None \<Rightarrow> 0 | Some r \<Rightarrow> r)
                        < (case read_time_min b of None \<Rightarrow> 0 | Some r \<Rightarrow> r)
                      \<or> (case read_time_min a of None \<Rightarrow> 0 | Some r \<Rightarrow> r)
                          = (case read_time_min b of None \<Rightarrow> 0 | Some r \<Rightarrow> r)
                        \<and> tb \<le> ta))
           (sortedItems pf (st\<lparr>st_sort := ''shortest''\<rparr>) flt)
       \<and> sorted_wrt
           (\<lambda>a b. \<exists>ta tb. newDate pf (release_date a) = Some ta
                 \<and> newDate pf (release_date b) = Some tb
                 \<and> ((case read_time_min b of None \<Rightarrow> 0 | Some r \<Rightarrow> r)
                        < (case read_time_min a of None \<Rightarrow> 0 | Some r \<Rightarrow> r)
                      \<or> (case read_time_min a of None \<Rightarrow> 0 | Some r \<Rightarrow> r)
                          = (case read_time_min b of None \<Rightarrow> 0 | Some r \<Rightarrow> r)
                        \<and> tb \<le> ta))
           (sortedItems pf (st\<lparr>st_sort := ''longest''\<rparr>) flt)
       \<and> mset (sortedItems pf (st\<lparr>st_sort := ''shortest''\<rparr>) flt) = mset flt
       \<and> mset (sortedItems pf (st\<lparr>st_sort := ''longest''\<rparr>) flt) = mset flt"
proof -
  from shortest_sorted [OF assms, of st] longest_sorted [OF assms, of st]
    mset_sortedItems [of pf "st\<lparr>st_sort := ''shortest''\<rparr>" flt]
    mset_sortedItems [of pf "st\<lparr>st_sort := ''longest''\<rparr>" flt]
  show ?thesis unfolding numOr0_def by (intro conjI)
qed

theorem read_time_sort_breaks_ties_by_recency_witness:
  "list_all (\<lambda>p. newDate utcPlatform (release_date p) \<noteq> None)
     (filtered utcPlatform (initialState\<lparr>st_sort := ''shortest''\<rparr>)
             [sampleAiGovernance, sampleDevIntent, sampleZeroTrust, sampleZeroTrustLong])
   \<and> map (\<lambda>p. (slug p, read_time_min p, release_date p))
       (sortedItems utcPlatform (initialState\<lparr>st_sort := ''shortest''\<rparr>)
          (filtered utcPlatform (initialState\<lparr>st_sort := ''shortest''\<rparr>)
             [sampleAiGovernance, sampleDevIntent, sampleZeroTrust, sampleZeroTrustLong]))
       = [(''ai-governance-intro'', None, Some ''2025-08-01''),
          (''zero-trust-2025'', Some 11, Some ''2025-10-15''),
          (''zero-trust-long'', Some 13, Some ''2025-10-15''),
          (''developer-intent-blueprint'', Some 13, Some ''2025-09-20'')]
   \<and> sorted_wrt
        (\<lambda>a b. \<exists>ta tb. newDate utcPlatform (release_date a) = Some ta
              \<and> newDate utcPlatform (release_date b) = Some tb
              \<and> ((case read_time_min a of None \<Rightarrow> 0 | Some r \<Rightarrow> r)
                     < (case read_time_min b of None \<Rightarrow> 0 | Some r \<Rightarrow> r)
                   \<or> (case read_time_min a of None \<Rightarrow> 0 | Some r \<Rightarrow> r)
                       = (case read_time_min b of None \<Rightarrow> 0 | Some r \<Rightarrow> r)
                     \<and> tb \<le> ta))
        (sortedItems utcPlatform (initialState\<lparr>st_sort := ''shortest''\<rparr>)
           (filtered utcPlatform (initialState\<lparr>st_sort := ''shortest''\<rparr>)
             [sampleAiGovernance, sampleDevIntent, sampleZeroTrust, sampleZeroTrustLong]))
   \<and> list_all (\<lambda>p. newDate utcPlatform (release_date p) \<noteq> None)
     (filtered utcPlatform (initialState\<lparr>st_sort := ''longest''\<rparr>)
             [sampleAiGovernance, sampleDevIntent, sampleZeroTrust, sampleZeroTrustLong])
   \<and> map (\<lambda>p. (slug p, read_time_min p, release_date p))
       (sortedItems utcPlatform (initialState\<lparr>st_sort := ''longest''\<rparr>)
          (filtered utcPlatform (initialState\<lparr>st_sort := ''longest''\<rparr>)
             [sampleAiGovernance, sampleDevIntent, sampleZeroTrust, sampleZeroTrustLong]))
       = [(''zero-trust-long'', Some 13, Some ''2025-10-15''),
          (''developer-intent-blueprint'', Some 13, Some ''2025-09-20''),
          (''zero-trust-2025'', Some 11, Some ''2025-10-15''),
          (''ai-governance-intro'', None, Some ''2025-08-01'')]
   \<and> sorted_wrt
        (\<lambda>a b. \<exists>ta tb. newDate utcPlatform (release_date a) = Some ta
              \<and> newDate utcPlatform (release_date b) = Some tb
              \<and> ((case read_time_min b of None \<Rightarrow> 0 | Some r \<Rightarrow> r)
                     < (case read_time_min a of None \<Rightarrow> 0 | Some r \<Rightarrow> r)
                   \<or> (case read_time_min a of None \<Rightarrow> 0 | Some r \<Rightarrow> r)
                       = (case read_time_min b of None \<Rightarrow> 0 | Some r \<Rightarrow> r)
                     \<and> tb \<le> ta))
        (sortedItems utcPlatform (initialState\<lparr>st_sort := ''longest''\<rparr>)
           (filtered utcPlatform (initialState\<lparr>st_sort := ''longest''\<rparr>)
             [sampleAiGovernance, sampleDevIntent, sampleZeroTrust, sampleZeroTrustLong]))"
proof -
  have hs: "list_all (\<lambda>p. newDate utcPlatform (release_date p) \<noteq> None)
     (filtered utcPlatform (initialState\<lparr>st_sort := ''shortest''\<rparr>)
             [sampleAiGovernance, sampleDevIntent, sampleZeroTrust, sampleZeroTrustLong])"
    by code_simp
  have hl: "list_all (\<lambda>p. newDate utcPlatform (release_date p) \<noteq> None)
     (filtered utcPlatform (initialState\<lparr>st_sort := ''longest''\<rparr>)
             [sampleAiGovernance, sampleDevIntent, sampleZeroTrust, sampleZeroTrustLong])"
    by code_simp
  have rs: "map (\<lambda>p. (slug p, read_time_min p, release_date p))
       (sortedItems utcPlatform (initialState\<lparr>st_sort := ''shortest''\<rparr>)
          (filtered utcPlatform (initialState\<lparr>st_sort := ''shortest''\<rparr>)
             [sampleAiGovernance, sampleDevIntent, sampleZeroTrust, sampleZeroTrustLong]))
       = [(''ai-governance-intro'', None, Some ''2025-08-01''),
          (''zero-trust-2025'', Some 11, Some ''2025-10-15''),
          (''zero-trust-long'', Some 13, Some ''2025-10-15''),
          (''developer-intent-blueprint'', Some 13, Some ''2025-09-20'')]"
    by code_simp
  have rl: "map (\<lambda>p. (slug p, read_time_min p, release_date p))
       (sortedItems utcPlatform (initialState\<lparr>st_sort := ''longest''\<rparr>)
          (filtered utcPlatform (initialState\<lparr>st_sort := ''longest''\<rparr>)
             [sampleAiGovernance, sampleDevIntent, sampleZeroTrust, sampleZeroTrustLong]))
       = [(''zero-trust-long'', Some 13, Some ''2025-10-15''),
          (''developer-intent-blueprint'', Some 13, Some ''2025-09-20''),
          (''zero-trust-2025'', Some 11, Some ''2025-10-15''),
          (''ai-governance-intro'', None, Some ''2025-08-01'')]"
    by code_simp
  from read_time_sort_breaks_ties_by_recency [OF hs, of initialState]
  have ts: "sorted_wrt
        (\<lambda>a b. \<exists>ta tb. newDate utcPlatform (release_date a) = Some ta
              \<and> newDate utcPlatform (release_date b) = Some tb
              \<and> ((case read_time_min a of None \<Rightarrow> 0 | Some r \<Rightarrow> r)
                     < (case read_time_min b of None \<Rightarrow> 0 | Some r \<Rightarrow> r)
                   \<or> (case read_time_min a of None \<Rightarrow> 0 | Some r \<Rightarrow> r)
                       = (case read_time_min b of None \<Rightarrow> 0 | Some r \<Rightarrow> r)
                     \<and> tb \<le> ta))
        (sortedItems utcPlatform (initialState\<lparr>st_sort := ''shortest''\<rparr>)
           (filtered utcPlatform (initialState\<lparr>st_sort := ''shortest''\<rparr>)
             [sampleAiGovernance, sampleDevIntent, sampleZeroTrust, sampleZeroTrustLong]))"
    by blast
  from read_time_sort_breaks_ties_by_recency [OF hl, of initialState]
  have tl: "sorted_wrt
        (\<lambda>a b. \<exists>ta tb. newDate utcPlatform (release_date a) = Some ta
              \<and> newDate utcPlatform (release_date b) = Some tb
              \<and> ((case read_time_min b of None \<Rightarrow> 0 | Some r \<Rightarrow> r)
                     < (case read_time_min a of None \<Rightarrow> 0 | Some r \<Rightarrow> r)
                   \<or> (case read_time_min a of None \<Rightarrow> 0 | Some r \<Rightarrow> r)
                       = (case read_time_min b of None \<Rightarrow> 0 | Some r \<Rightarrow> r)
                     \<and> tb \<le> ta))
        (sortedItems utcPlatform (initialState\<lparr>st_sort := ''longest''\<rparr>)
           (filtered utcPlatform (initialState\<lparr>st_sort := ''longest''\<rparr>)
             [sampleAiGovernance, sampleDevIntent, sampleZeroTrust, sampleZeroTrustLong]))"
    by blast
  from hs rs ts hl rl tl show ?thesis by (intro conjI)
qed

subsection \<open>Relevance score\<close>

lemma fold_scoreTerm:
  "fold (scoreTerm p) ws s =
     s + sum_list (map (\<lambda>w. (if strIncludes (toLowerCase (strOr (title p))) w then 5 else 0)
                          + (if strIncludes (toLowerCase (strOr (summary p))) w then 2 else 0)
                          + (if strIncludes (toLowerCase (scoreText p)) w then 1 else 0))
                     (filter (\<lambda>w. w \<noteq> []) ws))"
  by (induction ws arbitrary: s) (simp_all add: scoreTerm_def Let_def)

lemma score_valid:
  assumes "newDate pf (release_date p) = Some t"
  shows "score pf qs p =
     Num (sum_list (map (\<lambda>w. (if strIncludes (toLowerCase (strOr (title p))) w then 5 else 0)
                          + (if strIncludes (toLowerCase (strOr (summary p))) w then 2 else 0)
                          + (if strIncludes (toLowerCase (scoreText p)) w then 1 else 0))
                     (filter (\<lambda>w. w \<noteq> []) (splitWs (toLowerCase (trim qs)))))
          + max 0 (2 - (rat_of_int (dateNow pf) - rat_of_int t) / (1000 * 60 * 60 * 24 * 365)))"
  by (simp add: score_def Let_def assms getTime_def fold_scoreTerm msPerYear_def)

lemma title_hit_is_text_hit:
  "strIncludes (toLowerCase (strOr (title p))) w \<Longrightarrow> strIncludes (toLowerCase (scoreText p)) w"
  unfolding strIncludes_def scoreText_def toLowerCase_def map_append
  by (simp only: sublist_append) blast


lemma relevance_sorted:
  assumes valid: "list_all (\<lambda>p. newDate pf (release_date p) \<noteq> None) flt"
    and ne: "trim qs \<noteq> []"
  shows "sorted_wrt (\<lambda>a b. \<exists>sa sb. score pf qs a = Num sa \<and> score pf qs b = Num sb \<and> sb \<le> sa)
           (sortedItems pf (st\<lparr>st_sort := ''relevance'', st_q := qs\<rparr>) flt)"
proof -
  define le where "le = (\<lambda>(a::item) (b::item).
     \<exists>sa sb. score pf qs a = Num sa \<and> score pf qs b = Num sb \<and> sb \<le> sa)"
  define cmp where "cmp = (\<lambda>(a::item) (b::item). jsSub (score pf qs b) (score pf qs a))"
  have sc: "\<exists>s. score pf qs a = Num s" if "a \<in> set flt" for a
  proof -
    from that valid obtain t where "newDate pf (release_date a) = Some t"
      by (auto simp: list_all_iff)
    then show ?thesis by (simp add: score_valid)
  qed
  have tr: "le a c" if "le a b" "le b c" for a b c
    using that unfolding le_def by force
  have pos: "positive (cmp a b) \<longleftrightarrow> \<not> le a b" if "a \<in> set flt" "b \<in> set flt" for a b
  proof -
    from that sc obtain sa sb where "score pf qs a = Num sa" "score pf qs b = Num sb" by blast
    then show ?thesis unfolding cmp_def le_def by (auto simp: positive_Num)
  qed
  have tot: "le b a" if "a \<in> set flt" "b \<in> set flt" "\<not> le a b" for a b
  proof -
    from that sc obtain sa sb where "score pf qs a = Num sa" "score pf qs b = Num sb" by blast
    then show ?thesis using that(3) unfolding le_def by auto
  qed
  have "sorted_wrt le (arraySort cmp flt)"
    by (rule sorted_wrt_arraySort [where A = "set flt"]) (use tr pos tot in blast)+
  then show ?thesis using ne by (simp add: sortedItems_def le_def cmp_def)
qed

lemma newest_sorted:
  assumes valid: "list_all (\<lambda>p. newDate pf (release_date p) \<noteq> None) flt"
  shows "sorted_wrt (\<lambda>a b. \<exists>ta tb. newDate pf (release_date a) = Some ta
                 \<and> newDate pf (release_date b) = Some tb \<and> tb \<le> ta)
           (sortedItems pf (st\<lparr>st_sort := ''newest''\<rparr>) flt)"
proof -
  define le where "le = (\<lambda>(a::item) (b::item). \<exists>ta tb. newDate pf (release_date a) = Some ta
                 \<and> newDate pf (release_date b) = Some tb \<and> tb \<le> ta)"
  define cmp where "cmp = (\<lambda>(a::item) (b::item). dateDiff pf b a)"
  have dt: "\<exists>t. newDate pf (release_date a) = Some t" if "a \<in> set flt" for a
    using that valid by (auto simp: list_all_iff)
  have tr: "le a c" if "le a b" "le b c" for a b c
    using that unfolding le_def by force
  have pos: "positive (cmp a b) \<longleftrightarrow> \<not> le a b" if "a \<in> set flt" "b \<in> set flt" for a b
  proof -
    from that dt obtain ta tb where t: "newDate pf (release_date a) = Some ta"
      "newDate pf (release_date b) = Some tb" by blast
    show ?thesis unfolding cmp_def le_def by (auto simp: t dateDiff_valid positive_Num)
  qed
  have tot: "le b a" if "a \<in> set flt" "b \<in> set flt" "\<not> le a b" for a b
  proof -
    from that dt obtain ta tb where t: "newDate pf (release_date a) = Some ta"
      "newDate pf (release_date b) = Some tb" by blast
    show ?thesis using that(3) unfolding le_def by (auto simp: t)
  qed
  have "sorted_wrt le (arraySort cmp flt)"
    by (rule sorted_wrt_arraySort [where A = "set flt"]) (use tr pos tot in blast)+
  then show ?thesis by (simp add: sortedItems_def le_def cmp_def)
qed

lemma relevance_empty_term:
  "trim qs = [] \<Longrightarrow>
     sortedItems pf (st\<lparr>st_sort := ''relevance'', st_q := qs\<rparr>) flt
       = sortedItems pf (st\<lparr>st_sort := ''newest'', st_q := qs\<rparr>) flt"
  by (simp add: sortedItems_def)


lemma prefix_before_separator:
  assumes "c \<notin> set w"
  shows "prefix w (u @ c # v) \<longleftrightarrow> prefix w u"
proof
  assume "prefix w (u @ c # v)"
  then have "prefix w u \<or> (\<exists>us. w = u @ us \<and> prefix us (c # v))"
    by (simp only: prefix_append)
  moreover have "prefix w u" if "w = u @ us" "prefix us (c # v)" for us
  proof -
    from that assms have "c \<notin> set us" by simp
    with that(2) have "us = []" by (cases us) auto
    with that(1) show ?thesis by simp
  qed
  ultimately show "prefix w u" by blast
next
  assume "prefix w u"
  then show "prefix w (u @ c # v)" by (rule prefix_prefix)
qed

lemma sublist_across_separator:
  assumes "c \<notin> set w"
  shows "sublist w (a @ c # b) \<longleftrightarrow> sublist w a \<or> sublist w b"
proof (induction a)
  case Nil
  have "prefix w ([] @ c # b) \<longleftrightarrow> prefix w []"
    by (rule prefix_before_separator [OF assms])
  then show ?case by (auto simp: sublist_Cons_right)
next
  case (Cons x a)
  have "prefix w ((x # a) @ c # b) \<longleftrightarrow> prefix w (x # a)"
    by (rule prefix_before_separator [OF assms])
  then have p: "prefix w (x # a @ c # b) \<longleftrightarrow> prefix w (x # a)" by simp
  have "sublist w ((x # a) @ c # b) \<longleftrightarrow> prefix w (x # a @ c # b) \<or> sublist w (a @ c # b)"
    by (simp add: sublist_Cons_right)
  also have "\<dots> \<longleftrightarrow> prefix w (x # a) \<or> sublist w a \<or> sublist w b"
    by (simp only: p Cons.IH)
  also have "\<dots> \<longleftrightarrow> sublist w (x # a) \<or> sublist w b"
    by (simp only: sublist_Cons_right disj_assoc)
  finally show ?case .
qed

lemma toLowerChar_newline: "toLowerChar (CHR 0x0A) = CHR 0x0A"
  by (simp add: toLowerChar_def)

lemma toLowerChar_blank: "toLowerChar (CHR 0x20) = CHR 0x20"
  by (simp add: toLowerChar_def)

lemma hit_in_joined_labels:
  assumes "w \<noteq> []" and "CHR 0x20 \<notin> set w"
  shows "sublist w (toLowerCase (joinStr [CHR 0x20] ls)) \<longleftrightarrow>
           (\<exists>l \<in> set ls. sublist w (toLowerCase l))"
proof (induction ls rule: induct_list012)
  case 1
  then show ?case using assms by (simp add: toLowerCase_def)
next
  case (2 x)
  then show ?case by simp
next
  case (3 x y ys)
  have "toLowerCase (joinStr [CHR 0x20] (x # y # ys))
          = toLowerCase x @ CHR 0x20 # toLowerCase (joinStr [CHR 0x20] (y # ys))"
    by (simp add: toLowerCase_def toLowerChar_blank)
  then have "sublist w (toLowerCase (joinStr [CHR 0x20] (x # y # ys))) \<longleftrightarrow>
      sublist w (toLowerCase x) \<or> sublist w (toLowerCase (joinStr [CHR 0x20] (y # ys)))"
    by (simp only: sublist_across_separator [OF assms(2)])
  also have "\<dots> \<longleftrightarrow> sublist w (toLowerCase x) \<or> (\<exists>l \<in> set (y # ys). sublist w (toLowerCase l))"
    by (simp only: 3(2))
  also have "\<dots> \<longleftrightarrow> (\<exists>l \<in> set (x # y # ys). sublist w (toLowerCase l))"
    by simp
  finally show ?case .
qed

lemma tokens_no_space_aux:
  "\<forall>c \<in> set cur. \<not> isSpace c \<Longrightarrow> w \<in> set (splitPieces cur s) \<Longrightarrow> \<forall>c \<in> set w. \<not> isSpace c"
proof (induction cur s rule: splitPieces.induct)
  case (1 cur)
  then show ?case by simp
next
  case (2 cur c cs)
  show ?case
  proof (cases "isSpace c")
    case True
    then have "splitPieces cur (c # cs) = cur # splitPieces [] (dropWhile isSpace cs)"
      by (simp only: splitPieces.simps if_True)
    with "2.prems"(2) have "w = cur \<or> w \<in> set (splitPieces [] (dropWhile isSpace cs))"
      by (simp only: set_simps insert_iff)
    then show ?thesis
    proof
      assume "w = cur"
      with "2.prems"(1) show ?thesis by (simp only:)
    next
      assume "w \<in> set (splitPieces [] (dropWhile isSpace cs))"
      moreover have "\<forall>c \<in> set []. \<not> isSpace c" by (simp only: list.set ball_empty)
      ultimately show ?thesis using "2.IH"(1) [OF True] by blast
    qed
  next
    case False
    then have "splitPieces cur (c # cs) = splitPieces (cur @ [c]) cs"
      by (simp only: splitPieces.simps if_False)
    with "2.prems"(2) have "w \<in> set (splitPieces (cur @ [c]) cs)" by (simp only:)
    moreover have "\<forall>d \<in> set (cur @ [c]). \<not> isSpace d"
      using "2.prems"(1) False by (simp add: ball_Un)
    ultimately show ?thesis using "2.IH"(2) [OF False] by blast
  qed
qed

lemma tokens_no_space: "w \<in> set (splitWs s) \<Longrightarrow> \<forall>c \<in> set w. \<not> isSpace c"
  unfolding splitWs_def by (rule tokens_no_space_aux [of "[]"]) simp_all

lemma scoreText_explicit:
  "scoreText p =
     strOr (title p) @ CHR 0x0A # strOr (summary p) @ CHR 0x0A #
       joinStr [CHR 0x20] (arrOr (topics p)) @ CHR 0x0A #
       joinStr [CHR 0x20] (arrOr (tags p)) @ CHR 0x0A #
       joinStr [CHR 0x20] (arrOr (personas p)) @ CHR 0x0A #
       joinStr [CHR 0x20] (arrOr (industries p))"
  by (simp add: scoreText_def joinIfArray_def arrOr_def split: option.splits)

lemma toLowerCase_append: "toLowerCase (a @ b) = toLowerCase a @ toLowerCase b"
  by (simp add: toLowerCase_def)

lemma toLowerCase_newline: "toLowerCase (CHR 0x0A # b) = CHR 0x0A # toLowerCase b"
  by (simp add: toLowerCase_def toLowerChar_newline)

lemma text_hit_iff_field_hit:
  assumes ne: "w \<noteq> []" and ns: "\<forall>c \<in> set w. \<not> isSpace c"
  shows "strIncludes (toLowerCase (scoreText p)) w \<longleftrightarrow>
           strIncludes (toLowerCase (strOr (title p))) w
         \<or> strIncludes (toLowerCase (strOr (summary p))) w
         \<or> (\<exists>l \<in> set (arrOr (topics p)). strIncludes (toLowerCase l) w)
         \<or> (\<exists>l \<in> set (arrOr (tags p)). strIncludes (toLowerCase l) w)
         \<or> (\<exists>l \<in> set (arrOr (personas p)). strIncludes (toLowerCase l) w)
         \<or> (\<exists>l \<in> set (arrOr (industries p)). strIncludes (toLowerCase l) w)"
proof -
  have nl: "CHR 0x0A \<notin> set w" and bl: "CHR 0x20 \<notin> set w"
    using ns by (auto simp: isSpace_def)
  show ?thesis
    unfolding strIncludes_def scoreText_explicit
    by (simp only: toLowerCase_append toLowerCase_newline
          sublist_across_separator [OF nl] hit_in_joined_labels [OF ne bl])
qed

lemma score_parsed:
  assumes "release_date p = Some d" and "dateParse pf d = Some t"
  shows "score pf qs p =
              Num (sum_list
                     (map (\<lambda>w. (if strIncludes (toLowerCase (strOr (title p))) w then 5 else 0)
                             + (if strIncludes (toLowerCase (strOr (summary p))) w then 2 else 0)
                             + (if strIncludes
                                     (toLowerCase
                                        (strOr (title p) @ CHR 0x0A # strOr (summary p) @ CHR 0x0A #
                                 joinStr [CHR 0x20] (arrOr (topics p)) @ CHR 0x0A #
                                 joinStr [CHR 0x20] (arrOr (tags p)) @ CHR 0x0A #
                                 joinStr [CHR 0x20] (arrOr (personas p)) @ CHR 0x0A #
                                 joinStr [CHR 0x20] (arrOr (industries p)))) w
                                then 1 else 0))
                        (filter (\<lambda>w. w \<noteq> []) (splitWs (toLowerCase (trim qs)))))
                   + max 0 (2 - (rat_of_int (dateNow pf) - rat_of_int t)
                                  / (1000 * 60 * 60 * 24 * 365)))"
proof -
  from assms have "newDate pf (release_date p) = Some t" by (simp add: newDate_def)
  then show ?thesis by (simp only: score_valid scoreText_explicit)
qed

text \<open>
  C1, as stated, is false: with an item whose release date does not parse in the filtered
  list, the score of that item is \<open>NaN\<close>, the comparator returns \<open>NaN\<close> against it, and
  the result need not be ordered by score. Three videos released in January, on an
  unparseable date and in March, all matching the term \<open>Tech\<close> through their industries
  only, come back as they are, the January item with the lower score first; under an
  empty term they come back as they are too, the January item before the March item.
\<close>

theorem relevance_unparseable_date_counterexample:
  "st_sort initialState = ''relevance''
   \<and> map slug
       (sortedItems utcPlatform (initialState\<lparr>st_q := '' Tech ''\<rparr>)
          (filtered utcPlatform (initialState\<lparr>st_q := '' Tech ''\<rparr>)
             [releasedOn ''jan'' ''2025-01-15'', releasedOn ''tbd'' ''TBD'',
              releasedOn ''mar'' ''2025-03-15'']))
       = [''jan'', ''tbd'', ''mar'']
   \<and> score utcPlatform '' Tech '' (releasedOn ''jan'' ''2025-01-15'') = Num (787 / 365)
   \<and> score utcPlatform '' Tech '' (releasedOn ''mar'' ''2025-03-15'') = Num (846 / 365)
   \<and> (787 / 365 :: rat) < 846 / 365
   \<and> score utcPlatform '' Tech '' (releasedOn ''tbd'' ''TBD'') = NaN
   \<and> trim ''  '' = []
   \<and> map slug
       (sortedItems utcPlatform (initialState\<lparr>st_q := ''  ''\<rparr>)
          (filtered utcPlatform (initialState\<lparr>st_q := ''  ''\<rparr>)
             [releasedOn ''jan'' ''2025-01-15'', releasedOn ''tbd'' ''TBD'',
              releasedOn ''mar'' ''2025-03-15'']))
       = [''jan'', ''tbd'', ''mar'']
   \<and> newDate utcPlatform (release_date (releasedOn ''jan'' ''2025-01-15''))
       = Some 1736899200000
   \<and> newDate utcPlatform (release_date (releasedOn ''mar'' ''2025-03-15''))
       = Some 1741996800000
   \<and> (1736899200000 :: int) < 1741996800000"
  by code_simp

text \<open>
  C1, amended. Under the sort mode \<open>relevance\<close>: the score of an item whose release date
  parses is the sum, over the non-empty tokens that splitting the lower-cased trimmed
  term at white space gives, of 5 for a token contained in the lower-cased title, 2 for
  one contained in the lower-cased summary and 1 for one contained in the lower-cased
  concatenation of title, summary, topics, tags, personas and industries, plus the recency
  bonus \<open>max(0, 2 - age)\<close>, the age being the time from the release date to now divided by
  a year of 365 days. A token is contained in the concatenation iff it is contained in the
  title, in the summary or in one of the labels, so a title hit counts 6. When the trimmed
  term is not empty and every release date of the filtered list parses, the result is
  ordered by score descending; when the trimmed term is empty, the result is that of the
  mode \<open>newest\<close>, which is ordered by release date descending when every release date
  parses.
\<close>

theorem relevance_orders_by_score:
  assumes "list_all (\<lambda>p. newDate pf (release_date p) \<noteq> None) flt"
  shows "(release_date p = Some d \<and> dateParse pf d = Some t \<longrightarrow>
            score pf qs p =
              Num (sum_list
                     (map (\<lambda>w. (if strIncludes (toLowerCase (strOr (title p))) w then 5 else 0)
                             + (if strIncludes (toLowerCase (strOr (summary p))) w then 2 else 0)
                             + (if strIncludes
                                     (toLowerCase
                                        (strOr (title p) @ CHR 0x0A # strOr (summary p) @ CHR 0x0A #
                                 joinStr [CHR 0x20] (arrOr (topics p)) @ CHR 0x0A #
                                 joinStr [CHR 0x20] (arrOr (tags p)) @ CHR 0x0A #
                                 joinStr [CHR 0x20] (arrOr (personas p)) @ CHR 0x0A #
                                 joinStr [CHR 0x20] (arrOr (industries p)))) w
                                then 1 else 0))
                        (filter (\<lambda>w. w \<noteq> []) (splitWs (toLowerCase (trim qs)))))
                   + max 0 (2 - (rat_of_int (dateNow pf) - rat_of_int t)
                                  / (1000 * 60 * 60 * 24 * 365))))
       \<and> (\<forall>w \<in> set (splitWs (toLowerCase (trim qs))). w \<noteq> [] \<longrightarrow>
            (strIncludes (toLowerCase (strOr (title p) @ CHR 0x0A # strOr (summary p) @ CHR 0x0A #
                                 joinStr [CHR 0x20] (arrOr (topics p)) @ CHR 0x0A #
                                 joinStr [CHR 0x20] (arrOr (tags p)) @ CHR 0x0A #
                                 joinStr [CHR 0x20] (arrOr (personas p)) @ CHR 0x0A #
                                 joinStr [CHR 0x20] (arrOr (industries p)))) w \<longleftrightarrow>
                 strIncludes (toLowerCase (strOr (title p))) w
               \<or> strIncludes (toLowerCase (strOr (summary p))) w
               \<or> (\<exists>l \<in> set (arrOr (topics p)). strIncludes (toLowerCase l) w)
               \<or> (\<exists>l \<in> set (arrOr (tags p)). strIncludes (toLowerCase l) w)
               \<or> (\<exists>l \<in> set (arrOr (personas p)). strIncludes (toLowerCase l) w)
               \<or> (\<exists>l \<in> set (arrOr (industries p)). strIncludes (toLowerCase l) w)))
       \<and> (trim qs \<noteq> [] \<longrightarrow>
            sorted_wrt
              (\<lambda>a b. \<exists>sa sb. score pf qs a = Num sa \<and> score pf qs b = Num sb \<and> sb \<le> sa)
              (sortedItems pf (st\<lparr>st_sort := ''relevance'', st_q := qs\<rparr>) flt))
       \<and> (trim qs = [] \<longrightarrow>
            sortedItems pf (st\<lparr>st_sort := ''relevance'', st_q := qs\<rparr>) flt
              = sortedItems pf (st\<lparr>st_sort := ''newest'', st_q := qs\<rparr>) flt)
       \<and> sorted_wrt
           (\<lambda>a b. \<exists>ta tb. newDate pf (release_date a) = Some ta
                 \<and> newDate pf (release_date b) = Some tb \<and> tb \<le> ta)
           (sortedItems pf (st\<lparr>st_sort := ''newest'', st_q := qs\<rparr>) flt)
       \<and> mset (sortedItems pf (st\<lparr>st_sort := ''relevance'', st_q := qs\<rparr>) flt) = mset flt"
proof -
  have 1: "(release_date p = Some d \<and> dateParse pf d = Some t \<longrightarrow>
            score pf qs p =
              Num (sum_list
                     (map (\<lambda>w. (if strIncludes (toLowerCase (strOr (title p))) w then 5 else 0)
                             + (if strIncludes (toLowerCase (strOr (summary p))) w then 2 else 0)
                             + (if strIncludes
                                     (toLowerCase
                                        (strOr (title p) @ CHR 0x0A # strOr (summary p) @ CHR 0x0A #
                                 joinStr [CHR 0x20] (arrOr (topics p)) @ CHR 0x0A #
                                 joinStr [CHR 0x20] (arrOr (tags p)) @ CHR 0x0A #
                                 joinStr [CHR 0x20] (arrOr (personas p)) @ CHR 0x0A #
                                 joinStr [CHR 0x20] (arrOr (industries p)))) w
                                then 1 else 0))
                        (filter (\<lambda>w. w \<noteq> []) (splitWs (toLowerCase (trim qs)))))
                   + max 0 (2 - (rat_of_int (dateNow pf) - rat_of_int t)
                                  / (1000 * 60 * 60 * 24 * 365))))"
    using score_parsed [of p d pf t qs] by blast
  have 2: "(\<forall>w \<in> set (splitWs (toLowerCase (trim qs))). w \<noteq> [] \<longrightarrow>
            (strIncludes (toLowerCase (strOr (title p) @ CHR 0x0A # strOr (summary p) @ CHR 0x0A #
                                 joinStr [CHR 0x20] (arrOr (topics p)) @ CHR 0x0A #
                                 joinStr [CHR 0x20] (arrOr (tags p)) @ CHR 0x0A #
                                 joinStr [CHR 0x20] (arrOr (personas p)) @ CHR 0x0A #
                                 joinStr [CHR 0x20] (arrOr (industries p)))) w \<longleftrightarrow>
                 strIncludes (toLowerCase (strOr (title p))) w
               \<or> strIncludes (toLowerCase (strOr (summary p))) w
               \<or> (\<exists>l \<in> set (arrOr (topics p)). strIncludes (toLowerCase l) w)
               \<or> (\<exists>l \<in> set (arrOr (tags p)). strIncludes (toLowerCase l) w)
               \<or> (\<exists>l \<in> set (arrOr (personas p)). strIncludes (toLowerCase l) w)
               \<or> (\<exists>l \<in> set (arrOr (industries p)). strIncludes (toLowerCase l) w)))"
  proof (intro ballI impI)
    fix w
    assume w: "w \<in> set (splitWs (toLowerCase (trim qs)))" and ne: "w \<noteq> []"
    from w have ns: "\<forall>c \<in> set w. \<not> isSpace c" by (rule tokens_no_space)
    from text_hit_iff_field_hit [OF ne ns, of p]
    show "(strIncludes (toLowerCase (strOr (title p) @ CHR 0x0A # strOr (summary p) @ CHR 0x0A #
                                 joinStr [CHR 0x20] (arrOr (topics p)) @ CHR 0x0A #
                                 joinStr [CHR 0x20] (arrOr (tags p)) @ CHR 0x0A #
                                 joinStr [CHR 0x20] (arrOr (personas p)) @ CHR 0x0A #
                                 joinStr [CHR 0x20] (arrOr (industries p)))) w \<longleftrightarrow>
                 strIncludes (toLowerCase (strOr (title p))) w
               \<or> strIncludes (toLowerCase (strOr (summary p))) w
               \<or> (\<exists>l \<in> set (arrOr (topics p)). strIncludes (toLowerCase l) w)
               \<or> (\<exists>l \<in> set (arrOr (tags p)). strIncludes (toLowerCase l) w)
               \<or> (\<exists>l \<in> set (arrOr (personas p)). strIncludes (toLowerCase l) w)
               \<or> (\<exists>l \<in> set (arrOr (industries p)). strIncludes (toLowerCase l) w))"
      by (simp only: scoreText_explicit)
  qed
  have 3: "(trim qs \<noteq> [] \<longrightarrow>
            sorted_wrt
              (\<lambda>a b. \<exists>sa sb. score pf qs a = Num sa \<and> score pf qs b = Num sb \<and> sb \<le> sa)
              (sortedItems pf (st\<lparr>st_sort := ''relevance'', st_q := qs\<rparr>) flt))"
    using relevance_sorted [OF assms, of qs st] by blast
  have 4: "(trim qs = [] \<longrightarrow>
            sortedItems pf (st\<lparr>st_sort := ''relevance'', st_q := qs\<rparr>) flt
              = sortedItems pf (st\<lparr>st_sort := ''newest'', st_q := qs\<rparr>) flt)"
    using relevance_empty_term [of qs pf st flt] by blast
  have 5: "sorted_wrt
           (\<lambda>a b. \<exists>ta tb. newDate pf (release_date a) = Some ta
                 \<and> newDate pf (release_date b) = Some tb \<and> tb \<le> ta)
           (sortedItems pf (st\<lparr>st_sort := ''newest'', st_q := qs\<rparr>) flt)"
    using newest_sorted [OF assms, of "st\<lparr>st_q := qs\<rparr>"] by (simp add: sortedItems_def)
  from 1 2 3 4 5 mset_sortedItems [of pf "st\<lparr>st_sort := ''relevance'', st_q := qs\<rparr>" flt]
  show ?thesis by (intro conjI)
qed

theorem relevance_orders_by_score_witness:
  "list_all (\<lambda>p. newDate utcPlatform (release_date p) \<noteq> None)
     (filtered utcPlatform (initialState\<lparr>st_q := '' Tech ''\<rparr>) SAMPLE_items)
   \<and> map slug (filtered utcPlatform (initialState\<lparr>st_q := '' Tech ''\<rparr>) SAMPLE_items)
       = [''zero-trust-2025'', ''ai-governance-intro'', ''developer-intent-blueprint'']
   \<and> trim '' Tech '' \<noteq> []
   \<and> splitWs (toLowerCase (trim '' Tech '')) = [''tech'']
   \<and> map (\<lambda>p. (slug p, score utcPlatform '' Tech '' p))
       (sortedItems utcPlatform (initialState\<lparr>st_q := '' Tech ''\<rparr>)
          (filtered utcPlatform (initialState\<lparr>st_q := '' Tech ''\<rparr>) SAMPLE_items))
       = [(''zero-trust-2025'', Num (212 / 73)),
          (''developer-intent-blueprint'', Num (207 / 73)),
          (''ai-governance-intro'', Num (197 / 73))]
   \<and> sorted_wrt
        (\<lambda>a b. \<exists>sa sb. score utcPlatform '' Tech '' a = Num sa
              \<and> score utcPlatform '' Tech '' b = Num sb \<and> sb \<le> sa)
        (sortedItems utcPlatform (initialState\<lparr>st_sort := ''relevance'', st_q := '' Tech ''\<rparr>)
           (filtered utcPlatform (initialState\<lparr>st_q := '' Tech ''\<rparr>) SAMPLE_items))
   \<and> strIncludes (toLowerCase (strOr (title sampleAiGovernance) @ CHR 0x0A # strOr (summary sampleAiGovernance) @ CHR 0x0A #
                                 joinStr [CHR 0x20] (arrOr (topics sampleAiGovernance)) @ CHR 0x0A #
                                 joinStr [CHR 0x20] (arrOr (tags sampleAiGovernance)) @ CHR 0x0A #
                                 joinStr [CHR 0x20] (arrOr (personas sampleAiGovernance)) @ CHR 0x0A #
                                 joinStr [CHR 0x20] (arrOr (industries sampleAiGovernance)))) ''tech''
   \<and> release_date sampleZeroTrust = Some ''2025-10-15''
   \<and> dateParse utcPlatform ''2025-10-15'' = Some 1760486400000
   \<and> splitWs (toLowerCase (trim '' Zero  TRUST '')) = [''zero'', ''trust'']
   \<and> score utcPlatform '' Zero  TRUST '' sampleZeroTrust = Num (12 + 139 / 73)
   \<and> map (score utcPlatform ''to'') SAMPLE_items
       = [Num (3 + 139 / 73), Num (1 + 124 / 73), Num (3 + 134 / 73)]
   \<and> trim ''  '' = []
   \<and> sortedItems utcPlatform (initialState\<lparr>st_sort := ''relevance'', st_q := ''  ''\<rparr>)
        (filtered utcPlatform (initialState\<lparr>st_q := ''  ''\<rparr>) SAMPLE_items)
       = sortedItems utcPlatform (initialState\<lparr>st_sort := ''newest'', st_q := ''  ''\<rparr>)
           (filtered utcPlatform (initialState\<lparr>st_q := ''  ''\<rparr>) SAMPLE_items)
   \<and> map slug
       (sortedItems utcPlatform (initialState\<lparr>st_sort := ''relevance'', st_q := ''  ''\<rparr>)
          (filtered utcPlatform (initialState\<lparr>st_q := ''  ''\<rparr>) SAMPLE_items))
       = [''zero-trust-2025'', ''developer-intent-blueprint'', ''ai-governance-intro'']"
proof -
  let ?flt = "filtered utcPlatform (initialState\<lparr>st_q := '' Tech ''\<rparr>) SAMPLE_items"
  let ?all = "filtered utcPlatform (initialState\<lparr>st_q := ''  ''\<rparr>) SAMPLE_items"
  have h: "list_all (\<lambda>p. newDate utcPlatform (release_date p) \<noteq> None)
     (filtered utcPlatform (initialState\<lparr>st_q := '' Tech ''\<rparr>) SAMPLE_items)"
    by code_simp
  have h0: "list_all (\<lambda>p. newDate utcPlatform (release_date p) \<noteq> None) ?all"
    by code_simp
  have fp: "map slug (filtered utcPlatform (initialState\<lparr>st_q := '' Tech ''\<rparr>) SAMPLE_items)
       = [''zero-trust-2025'', ''ai-governance-intro'', ''developer-intent-blueprint'']"
    by code_simp
  have n: "trim '' Tech '' \<noteq> []" by code_simp
  have k: "splitWs (toLowerCase (trim '' Tech '')) = [''tech'']" by code_simp
  have o: "map (\<lambda>p. (slug p, score utcPlatform '' Tech '' p))
       (sortedItems utcPlatform (initialState\<lparr>st_q := '' Tech ''\<rparr>)
          (filtered utcPlatform (initialState\<lparr>st_q := '' Tech ''\<rparr>) SAMPLE_items))
       = [(''zero-trust-2025'', Num (212 / 73)),
          (''developer-intent-blueprint'', Num (207 / 73)),
          (''ai-governance-intro'', Num (197 / 73))]"
    by code_simp
  have i: "\<exists>l \<in> set (arrOr (industries sampleAiGovernance)). strIncludes (toLowerCase l) ''tech''"
    by code_simp
  have r: "release_date sampleZeroTrust = Some ''2025-10-15''" by code_simp
  have d: "dateParse utcPlatform ''2025-10-15'' = Some 1760486400000" by code_simp
  have k2: "splitWs (toLowerCase (trim '' Zero  TRUST '')) = [''zero'', ''trust'']" by code_simp
  have f: "Num (sum_list
                     (map (\<lambda>w. (if strIncludes (toLowerCase (strOr (title sampleZeroTrust))) w then 5 else 0)
                             + (if strIncludes (toLowerCase (strOr (summary sampleZeroTrust))) w then 2 else 0)
                             + (if strIncludes
                                     (toLowerCase
                                        (strOr (title sampleZeroTrust) @ CHR 0x0A # strOr (summary sampleZeroTrust) @ CHR 0x0A #
                                 joinStr [CHR 0x20] (arrOr (topics sampleZeroTrust)) @ CHR 0x0A #
                                 joinStr [CHR 0x20] (arrOr (tags sampleZeroTrust)) @ CHR 0x0A #
                                 joinStr [CHR 0x20] (arrOr (personas sampleZeroTrust)) @ CHR 0x0A #
                                 joinStr [CHR 0x20] (arrOr (industries sampleZeroTrust)))) w
                                then 1 else 0))
                        (filter (\<lambda>w. w \<noteq> []) (splitWs (toLowerCase (trim '' Zero  TRUST '')))))
                   + max 0 (2 - (rat_of_int (dateNow utcPlatform) - rat_of_int 1760486400000)
                                  / (1000 * 60 * 60 * 24 * 365)))
           = Num (12 + 139 / 73)"
    by code_simp
  have v2: "map (score utcPlatform ''to'') SAMPLE_items
       = [Num (3 + 139 / 73), Num (1 + 124 / 73), Num (3 + 134 / 73)]"
    by code_simp
  have e: "trim ''  '' = []" by code_simp
  have q2: "map slug
       (sortedItems utcPlatform (initialState\<lparr>st_sort := ''relevance'', st_q := ''  ''\<rparr>)
          (filtered utcPlatform (initialState\<lparr>st_q := ''  ''\<rparr>) SAMPLE_items))
       = [''zero-trust-2025'', ''developer-intent-blueprint'', ''ai-governance-intro'']"
    by code_simp
  note tech = relevance_orders_by_score
                [OF h, where p = sampleAiGovernance and qs = "'' Tech ''" and st = initialState]
  from tech n have s: "sorted_wrt
        (\<lambda>a b. \<exists>sa sb. score utcPlatform '' Tech '' a = Num sa
              \<and> score utcPlatform '' Tech '' b = Num sb \<and> sb \<le> sa)
        (sortedItems utcPlatform (initialState\<lparr>st_sort := ''relevance'', st_q := '' Tech ''\<rparr>)
           (filtered utcPlatform (initialState\<lparr>st_q := '' Tech ''\<rparr>) SAMPLE_items))"
    by blast
  have "''tech'' \<in> set (splitWs (toLowerCase (trim '' Tech ''))) \<and> ''tech'' \<noteq> []"
    by (simp add: k)
  with tech i have x: "strIncludes (toLowerCase (strOr (title sampleAiGovernance) @ CHR 0x0A # strOr (summary sampleAiGovernance) @ CHR 0x0A #
                                 joinStr [CHR 0x20] (arrOr (topics sampleAiGovernance)) @ CHR 0x0A #
                                 joinStr [CHR 0x20] (arrOr (tags sampleAiGovernance)) @ CHR 0x0A #
                                 joinStr [CHR 0x20] (arrOr (personas sampleAiGovernance)) @ CHR 0x0A #
                                 joinStr [CHR 0x20] (arrOr (industries sampleAiGovernance)))) ''tech''"
    by blast
  from relevance_orders_by_score
         [OF h, where p = sampleZeroTrust and qs = "'' Zero  TRUST ''" and st = initialState
            and d = "''2025-10-15''" and t = 1760486400000] r d
  have "score utcPlatform '' Zero  TRUST '' sampleZeroTrust
          = Num (sum_list
                     (map (\<lambda>w. (if strIncludes (toLowerCase (strOr (title sampleZeroTrust))) w then 5 else 0)
                             + (if strIncludes (toLowerCase (strOr (summary sampleZeroTrust))) w then 2 else 0)
                             + (if strIncludes
                                     (toLowerCase
                                        (strOr (title sampleZeroTrust) @ CHR 0x0A # strOr (summary sampleZeroTrust) @ CHR 0x0A #
                                 joinStr [CHR 0x20] (arrOr (topics sampleZeroTrust)) @ CHR 0x0A #
                                 joinStr [CHR 0x20] (arrOr (tags sampleZeroTrust)) @ CHR 0x0A #
                                 joinStr [CHR 0x20] (arrOr (personas sampleZeroTrust)) @ CHR 0x0A #
                                 joinStr [CHR 0x20] (arrOr (industries sampleZeroTrust)))) w
                                then 1 else 0))
                        (filter (\<lambda>w. w \<noteq> []) (splitWs (toLowerCase (trim '' Zero  TRUST '')))))
                   + max 0 (2 - (rat_of_int (dateNow utcPlatform) - rat_of_int 1760486400000)
                                  / (1000 * 60 * 60 * 24 * 365)))"
    by blast
  from this f have v: "score utcPlatform '' Zero  TRUST '' sampleZeroTrust = Num (12 + 139 / 73)"
    by (rule trans)
  from relevance_orders_by_score
         [OF h0, where p = sampleZeroTrust and qs = "''  ''" and st = initialState] e
  have q: "sortedItems utcPlatform (initialState\<lparr>st_sort := ''relevance'', st_q := ''  ''\<rparr>)
        (filtered utcPlatform (initialState\<lparr>st_q := ''  ''\<rparr>) SAMPLE_items)
       = sortedItems utcPlatform (initialState\<lparr>st_sort := ''newest'', st_q := ''  ''\<rparr>)
           (filtered utcPlatform (initialState\<lparr>st_q := ''  ''\<rparr>) SAMPLE_items)"
    by blast
  from h fp n k o s x r d k2 v v2 e q q2 show ?thesis by (intro conjI)
qed

subsection \<open>Pagination\<close>

lemma take_drop_nth:
  "take n (drop k xs) = map (\<lambda>i. xs ! i) [k ..< min (k + n) (length xs)]"
  by (rule nth_equalityI) (auto simp: min_def split: if_splits)

lemma jsSlice_nonneg:
  "0 \<le> a \<Longrightarrow> a \<le> b \<Longrightarrow>
   jsSlice xs a b = map (\<lambda>i. xs ! i) [nat a ..< min (nat b) (length xs)]"
  unfolding jsSlice_def relIndex_def Let_def take_drop_nth
  by (auto simp: min_def max_def nat_diff_distrib' intro!: arg_cong2[where f=upt])

lemma pageCount_ge1: "1 \<le> pageCount xs S"
  by (simp add: pageCount_def)

lemma pageCount_covers:
  assumes S: "1 \<le> S"
  shows "int (length xs) \<le> pageCount xs S * S"
proof -
  let ?x = "rat_of_nat (length xs) / rat_of_int S"
  have "?x \<le> rat_of_int (ceiling ?x)" by (rule le_of_int_ceiling)
  also have "\<dots> \<le> rat_of_int (pageCount xs S)" by (simp add: pageCount_def)
  finally have "rat_of_nat (length xs) \<le> rat_of_int (pageCount xs S) * rat_of_int S"
    using S by (simp add: pos_divide_le_eq)
  then have "rat_of_int (int (length xs)) \<le> rat_of_int (pageCount xs S * S)" by simp
  then show ?thesis by (simp only: of_int_le_iff)
qed

lemma pageCount_least:
  assumes S: "1 \<le> S" and gt: "1 < pageCount xs S"
  shows "(pageCount xs S - 1) * S < int (length xs)"
proof -
  let ?x = "rat_of_nat (length xs) / rat_of_int S"
  from gt have eq: "pageCount xs S = ceiling ?x"
    by (simp add: pageCount_def max_def split: if_splits)
  have "rat_of_int (ceiling ?x) - 1 < ?x" by linarith
  then have "rat_of_int (pageCount xs S - 1) < ?x" using eq by simp
  then have "rat_of_int (pageCount xs S - 1) * rat_of_int S < rat_of_nat (length xs)"
    using S by (simp add: pos_less_divide_eq)
  then have "rat_of_int ((pageCount xs S - 1) * S) < rat_of_int (int (length xs))" by simp
  then show ?thesis by (simp only: of_int_less_iff)
qed

lemma safePage_cases:
  "safePage xs S page =
     (if page < 1 then 1 else if pageCount xs S < page then pageCount xs S else page)"
  using pageCount_ge1 [of xs S] by (simp add: safePage_def clamp_def min_def max_def)

lemma safePage_range: "1 \<le> safePage xs S page \<and> safePage xs S page \<le> pageCount xs S"
  using pageCount_ge1 [of xs S] by (simp add: safePage_def clamp_def min_def max_def)

lemma pageItems_nth:
  assumes S: "1 \<le> S"
  shows "pageItems xs S page =
           map (\<lambda>i. xs ! i)
             [nat ((safePage xs S page - 1) * S) ..<
              min (nat (safePage xs S page * S)) (length xs)]"
proof -
  have sp: "1 \<le> safePage xs S page" using safePage_range by blast
  then have lo: "0 \<le> (safePage xs S page - 1) * S" using S by simp
  have "(safePage xs S page - 1) * S \<le> safePage xs S page * S"
    using S by (simp add: mult_right_mono)
  with lo show ?thesis unfolding pageItems_def Let_def by (rule jsSlice_nonneg)
qed

lemma page5_of_3:
  assumes "length xs = 3"
  shows "safePage xs 1 5 = 3 \<and> pageItems xs 1 5 = [last xs]"
proof -
  from assms obtain a b c where xs: "xs = [a, b, c]"
    by (auto simp: numeral_3_eq_3 length_Suc_conv)
  show ?thesis
    by (simp add: xs pageItems_def safePage_def pageCount_def clamp_def jsSlice_def relIndex_def)
qed

text \<open>
  C6. For a sorted result list \<open>xs\<close> of length \<open>total\<close>, a page size \<open>S \<ge> 1\<close> and any
  requested page: \<open>pageCount\<close> is \<open>max(1, ceil(total / S))\<close>, that is, it is at least 1,
  \<open>pageCount * S\<close> covers the list and no smaller count above 1 does; the effective page is
  the requested one clamped into \<open>[1, pageCount]\<close>; the visible slice holds exactly the
  elements at the indices from \<open>(effectivePage - 1) * S\<close> up to but excluding
  \<open>effectivePage * S\<close> (as far as the list reaches). With three results, page size 1 and
  requested page 5 the effective page is 3 and the slice is the last item.
\<close>

theorem pagination_clamped_slice:
  assumes "1 \<le> S"
  shows "pageCount xs S = max 1 (ceiling (rat_of_nat (length xs) / rat_of_int S))
       \<and> 1 \<le> pageCount xs S
       \<and> int (length xs) \<le> pageCount xs S * S
       \<and> (1 < pageCount xs S \<longrightarrow> (pageCount xs S - 1) * S < int (length xs))
       \<and> safePage xs S page =
            (if page < 1 then 1 else if pageCount xs S < page then pageCount xs S else page)
       \<and> 1 \<le> safePage xs S page \<and> safePage xs S page \<le> pageCount xs S
       \<and> pageItems xs S page =
            map (\<lambda>i. xs ! i)
              [nat ((safePage xs S page - 1) * S) ..<
               min (nat (safePage xs S page * S)) (length xs)]
       \<and> (length xs = 3 \<and> S = 1 \<and> page = 5 \<longrightarrow>
            safePage xs S page = 3 \<and> pageItems xs S page = [last xs])"
proof -
  have "pageCount xs S = max 1 (ceiling (rat_of_nat (length xs) / rat_of_int S))"
    by (simp add: pageCount_def)
  moreover note pageCount_ge1 [of xs S] pageCount_covers [OF assms, of xs]
  moreover have "1 < pageCount xs S \<longrightarrow> (pageCount xs S - 1) * S < int (length xs)"
    using pageCount_least [OF assms] by blast
  moreover note safePage_cases [of xs S page] safePage_range [of xs S page]
    pageItems_nth [OF assms, of xs page]
  moreover have "length xs = 3 \<and> S = 1 \<and> page = 5 \<longrightarrow>
            safePage xs S page = 3 \<and> pageItems xs S page = [last xs]"
    using page5_of_3 [of xs] by blast
  ultimately show ?thesis by blast
qed

theorem pagination_clamped_slice_witness:
  "(1::int) \<le> 1
   \<and> pageCount [''zero-trust'', ''dev-intent'', ''ai-governance''] 1 = 3
   \<and> safePage [''zero-trust'', ''dev-intent'', ''ai-governance''] 1 5 = 3
   \<and> pageItems [''zero-trust'', ''dev-intent'', ''ai-governance''] 1 5 = [''ai-governance'']"
proof -
  have h: "(1::int) \<le> 1" by simp
  have len: "length [''zero-trust'', ''dev-intent'', ''ai-governance''] = 3" by simp
  show ?thesis
    using pagination_clamped_slice [OF h, of "[''zero-trust'', ''dev-intent'', ''ai-governance'']" 5] len
    by (simp add: pageCount_def)
qed

subsection \<open>Facet selection toggle\<close>

text \<open>
  C10. For a duplicate-free selection list \<open>arr\<close> and a value \<open>v\<close>: one toggle removes
  \<open>v\<close> when it is selected and appends it when it is not, and two toggles give a list with
  the members of \<open>arr\<close> (a value that is added again moves to the end). The list stays
  duplicate-free.
\<close>

theorem toggle_twice_same_members:
  assumes "distinct arr"
  shows "(v \<in> set arr \<longrightarrow>
            toggle arr v = filter (\<lambda>x. x \<noteq> v) arr \<and> set (toggle arr v) = set arr - {v})
       \<and> (v \<notin> set arr \<longrightarrow> toggle arr v = arr @ [v])
       \<and> set (toggle (toggle arr v) v) = set arr
       \<and> (v \<in> set arr \<longrightarrow> toggle (toggle arr v) v = filter (\<lambda>x. x \<noteq> v) arr @ [v])
       \<and> (v \<notin> set arr \<longrightarrow> toggle (toggle arr v) v = arr)
       \<and> distinct (toggle arr v)"
  using assms by (auto simp: toggle_def arrIncludes_def filter_id_conv)

theorem toggle_twice_same_members_witness:
  "distinct [''video'', ''slide'']
   \<and> toggle [''video'', ''slide''] ''video'' = [''slide'']
   \<and> toggle (toggle [''video'', ''slide''] ''video'') ''video'' = [''slide'', ''video'']
   \<and> toggle [''video'', ''slide''] ''whitepaper'' = [''video'', ''slide'', ''whitepaper'']
   \<and> set (toggle (toggle [''video'', ''slide''] ''video'') ''video'') = set [''video'', ''slide'']"
proof -
  have d: "distinct [''video'', ''slide'']" by simp
  show ?thesis
    using toggle_twice_same_members [OF d, of "''video''"]
    by (simp add: toggle_def arrIncludes_def insert_commute)
qed

end
